theory Spec2Isabelle
  imports Main
begin

section \<open>JavaScript values decoded from the feed\<close>

text \<open>
  The feed payloads are typed \<^verbatim>\<open>any\<close> in \<^verbatim>\<open>src/index.ts\<close>: whatever \<^verbatim>\<open>JSON.parse\<close> returns.
  A value is therefore a JSON tree, with \<^verbatim>\<open>undefined\<close> added for the result of reading a
  property that is not there. An object is the list of its own properties; the value of a
  property is its first binding in the list.

  Numbers of a payload: \<open>JNum n\<close> stands for the IEEE double whose value is the integer
  \<open>n\<close>; fractional numbers are outside the model. The numbers the program computes are
  modelled apart, with the rounding of the doubles, by \<open>jsnumber\<close> below.

  Strings are lists of 8-bit characters, so code units above \<open>0xFF\<close> are outside the model.
\<close>

datatype jsval =
    JUndefined
  | JNull
  | JBool bool
  | JNum int
  | JStr string
  | JArr "jsval list"
  | JObj "(string \<times> jsval) list"

text \<open>What a \<^verbatim>\<open>throw\<close> carries: a \<^verbatim>\<open>TypeError\<close> of the runtime, an \<^verbatim>\<open>Error\<close> with its message, or
  the \<^verbatim>\<open>Error\<close> that \<^verbatim>\<open>bind\<close> of the database throws for a value of a type it does not take
  (its message is not modelled).\<close>

datatype js_error = TypeError | Error string | D1_TYPE_ERROR

section \<open>Numbers\<close>

text \<open>
  The numbers the program computes: dot-ball counts read by \<^verbatim>\<open>parseInt\<close>, their products
  with 18 and the sums of these. They are doubles whose value is an integer, or an
  infinity, or \<^verbatim>\<open>NaN\<close>. No operation of the program yields a negative zero from them.
\<close>

datatype jsnumber = Fin int | PosInf | NegInf | NaN

text \<open>The number of binary digits of a positive integer.\<close>

function bitlen :: "int \<Rightarrow> nat" where
  "bitlen n = (if n \<le> 0 then 0 else Suc (bitlen (n div 2)))"
  by pat_completeness auto
termination
  by (relation "measure nat") auto

declare bitlen.simps [simp del]

text \<open>The double nearest to an integer that is not negative, ties to the even significand of
  53 bits. A result of \<open>2^1024\<close> or more stands for an overflow.\<close>

definition round_mag :: "int \<Rightarrow> int" where
  "round_mag n =
     (if n \<le> 9007199254740992 then n
      else
        (let shift = bitlen n - 53;
             q = n div 2 ^ shift;
             r = n mod 2 ^ shift;
             half = 2 ^ (shift - 1)
         in (if half < r \<or> (r = half \<and> q mod 2 = 1) then q + 1 else q) * 2 ^ shift))"

text \<open>The Number for a mathematical integer: what an operation on doubles returns when
  its exact result is that integer.\<close>

definition round_int :: "int \<Rightarrow> jsnumber" where
  "round_int i =
     (let m = round_mag \<bar>i\<bar> in
      if 2 ^ 1024 \<le> m then (if i < 0 then NegInf else PosInf)
      else Fin (if i < 0 then - m else m))"

text \<open>\<^verbatim>\<open>a + b\<close>. Adding zero gives the other operand, as it does for every double.\<close>

fun num_add :: "jsnumber \<Rightarrow> jsnumber \<Rightarrow> jsnumber" where
  "num_add NaN b = NaN"
| "num_add a NaN = NaN"
| "num_add PosInf NegInf = NaN"
| "num_add NegInf PosInf = NaN"
| "num_add PosInf b = PosInf"
| "num_add a PosInf = PosInf"
| "num_add NegInf b = NegInf"
| "num_add a NegInf = NegInf"
| "num_add (Fin x) (Fin y) =
     (if y = 0 then Fin x else if x = 0 then Fin y else round_int (x + y))"

text \<open>\<^verbatim>\<open>a * b\<close>, for a second operand that is positive, as the constant 18 is.\<close>

fun num_mul :: "jsnumber \<Rightarrow> jsnumber \<Rightarrow> jsnumber" where
  "num_mul NaN b = NaN"
| "num_mul a NaN = NaN"
| "num_mul (Fin x) (Fin y) = round_int (x * y)"
| "num_mul (Fin x) PosInf = (if x = 0 then NaN else if x < 0 then NegInf else PosInf)"
| "num_mul (Fin x) NegInf = (if x = 0 then NaN else if x < 0 then PosInf else NegInf)"
| "num_mul PosInf (Fin y) = (if y = 0 then NaN else if y < 0 then NegInf else PosInf)"
| "num_mul NegInf (Fin y) = (if y = 0 then NaN else if y < 0 then PosInf else NegInf)"
| "num_mul PosInf PosInf = PosInf"
| "num_mul PosInf NegInf = NegInf"
| "num_mul NegInf PosInf = NegInf"
| "num_mul NegInf NegInf = PosInf"

section \<open>The platform\<close>

text \<open>What the worker gets from its runtime: the outcome of \<^verbatim>\<open>fetch\<close> for a URL, \<^verbatim>\<open>JSON.parse\<close>
  (\<open>None\<close> when it throws a \<^verbatim>\<open>SyntaxError\<close>), the clock (the time in milliseconds that the
  \<open>k\<close>-th \<^verbatim>\<open>new Date()\<close> of an invocation reads), \<^verbatim>\<open>Date.prototype.toISOString\<close>, the
  \<^verbatim>\<open>date()\<close> function of the SQL engine (\<open>None\<close> is SQL \<^verbatim>\<open>NULL\<close>), the printing of a Number
  whose integer value is beyond the safe integers, what the SQL engine stores for a
  bound number that is not a safe integer (\<open>None\<close> is \<^verbatim>\<open>NULL\<close>), and what its \<^verbatim>\<open>+\<close> returns
  when an operand or the sum is not a safe integer.\<close>

datatype fetch_result =
    NetworkFailure
  | Response bool "string option"

text \<open>\<open>Response ok body\<close>: \<^verbatim>\<open>response.ok\<close>, and what \<^verbatim>\<open>response.text()\<close> resolves to (\<open>None\<close> when
  it rejects).\<close>

record platform =
  fetch :: "string \<Rightarrow> fetch_result"
  JSON_parse :: "string \<Rightarrow> jsval option"
  Date_now :: "nat \<Rightarrow> int"
  toISOString :: "int \<Rightarrow> string"
  sql_date :: "string \<Rightarrow> string option"
  Number_toString :: "int \<Rightarrow> string"
  sql_number :: "jsnumber \<Rightarrow> int option"
  sql_sum :: "int \<Rightarrow> int \<Rightarrow> int option"

section \<open>Reading values\<close>

definition bnd :: "'e + 'a \<Rightarrow> ('a \<Rightarrow> 'e + 'b) \<Rightarrow> 'e + 'b" where
  "bnd x f = (case x of Inl e \<Rightarrow> Inl e | Inr v \<Rightarrow> f v)"

text \<open>Truthiness, as tested by \<^verbatim>\<open>||\<close>, \<^verbatim>\<open>!\<close> and \<^verbatim>\<open>if\<close>.\<close>

fun truthy :: "jsval \<Rightarrow> bool" where
  "truthy JUndefined = False"
| "truthy JNull = False"
| "truthy (JBool b) = b"
| "truthy (JNum n) = (n \<noteq> 0)"
| "truthy (JStr s) = (s \<noteq> [])"
| "truthy (JArr xs) = True"
| "truthy (JObj kvs) = True"

definition nullish :: "jsval \<Rightarrow> bool" where
  "nullish v = (v = JUndefined \<or> v = JNull)"

text \<open>
  \<^verbatim>\<open>v.k\<close> for the data keys the program reads (\<^verbatim>\<open>Innings1\<close>, \<^verbatim>\<open>BattingCard\<close>, \<^verbatim>\<open>TeamID\<close>,
  \<^verbatim>\<open>DotBalls\<close>, ...), none of which is a property of a built-in prototype: reading from
  \<^verbatim>\<open>null\<close> or \<^verbatim>\<open>undefined\<close> throws, an object gives its own property, every other value gives
  \<^verbatim>\<open>undefined\<close>.
\<close>

fun get_prop :: "jsval \<Rightarrow> string \<Rightarrow> js_error + jsval" where
  "get_prop JUndefined k = Inl TypeError"
| "get_prop JNull k = Inl TypeError"
| "get_prop (JObj kvs) k = Inr (case map_of kvs k of None \<Rightarrow> JUndefined | Some v \<Rightarrow> v)"
| "get_prop (JBool b) k = Inr JUndefined"
| "get_prop (JNum n) k = Inr JUndefined"
| "get_prop (JStr s) k = Inr JUndefined"
| "get_prop (JArr xs) k = Inr JUndefined"

text \<open>\<^verbatim>\<open>v[0]\<close>: the first element of an array, the first character of a string, the property
  \<^verbatim>\<open>"0"\<close> of an object.\<close>

fun get_index0 :: "jsval \<Rightarrow> js_error + jsval" where
  "get_index0 JUndefined = Inl TypeError"
| "get_index0 JNull = Inl TypeError"
| "get_index0 (JArr xs) = Inr (case xs of [] \<Rightarrow> JUndefined | x # _ \<Rightarrow> x)"
| "get_index0 (JStr s) = Inr (case s of [] \<Rightarrow> JUndefined | c # _ \<Rightarrow> JStr [c])"
| "get_index0 (JObj kvs) = Inr (case map_of kvs ''0'' of None \<Rightarrow> JUndefined | Some v \<Rightarrow> v)"
| "get_index0 (JBool b) = Inr JUndefined"
| "get_index0 (JNum n) = Inr JUndefined"

text \<open>Decimal digits of a number, as \<^verbatim>\<open>Number.prototype.toString\<close> and template literals
  print a safe integer, one of magnitude up to \<open>2^53 - 1\<close>.\<close>

fun digits :: "nat \<Rightarrow> string" where
  "digits n = (if n < 10 then [''0123456789'' ! n]
               else digits (n div 10) @ [''0123456789'' ! (n mod 10)])"

declare digits.simps [simp del]

definition show_int :: "int \<Rightarrow> string" where
  "show_int i = (if i < 0 then CHR ''-'' # digits (nat (- i)) else digits (nat i))"

text \<open>
  The abstract operation ToString, used by template literals and by \<^verbatim>\<open>parseInt\<close>. An array
  prints its elements joined by commas, \<^verbatim>\<open>null\<close> and \<^verbatim>\<open>undefined\<close> elements as the empty
  string. A plain object prints as \<^verbatim>\<open>[object Object]\<close> through \<^verbatim>\<open>Object.prototype.toString\<close>;
  when the object has an own property \<^verbatim>\<open>toString\<close> (never callable in decoded JSON) that
  method is shadowed, \<^verbatim>\<open>valueOf\<close> gives no primitive either, and the conversion throws a
  \<^verbatim>\<open>TypeError\<close>. A number prints its digits when it is a safe integer; beyond, the runtime
  prints the shortest digits that read back as the same double, in exponent notation from
  \<open>10^21\<close> on, and the platform gives that string.
\<close>

fun ToString :: "platform \<Rightarrow> jsval \<Rightarrow> js_error + string"
  and join :: "platform \<Rightarrow> jsval list \<Rightarrow> js_error + string" where
  "ToString P JUndefined = Inr ''undefined''"
| "ToString P JNull = Inr ''null''"
| "ToString P (JBool b) = Inr (if b then ''true'' else ''false'')"
| "ToString P (JNum n) =
     Inr (if \<bar>n\<bar> \<le> 9007199254740991 then show_int n else Number_toString P n)"
| "ToString P (JStr s) = Inr s"
| "ToString P (JArr xs) = join P xs"
| "ToString P (JObj kvs) =
     (if map_of kvs ''toString'' \<noteq> None then Inl TypeError else Inr ''[object Object]'')"
| "join P [] = Inr ''''"
| "join P (x # xs) =
     bnd (if x = JUndefined \<or> x = JNull then Inr '''' else ToString P x)
       (\<lambda>a. if xs = [] then Inr a else bnd (join P xs) (\<lambda>b. Inr (a @ '','' @ b)))"

text \<open>The method call \<^verbatim>\<open>v.toString()\<close>: it throws on \<^verbatim>\<open>null\<close> and \<^verbatim>\<open>undefined\<close>, and on an object
  whose own \<^verbatim>\<open>toString\<close> property is not a function; otherwise it prints as ToString does.\<close>

definition toString_method :: "platform \<Rightarrow> jsval \<Rightarrow> js_error + string" where
  "toString_method P v = (if nullish v then Inl TypeError else ToString P v)"

text \<open>Strict equality \<^verbatim>\<open>===\<close>. Primitives are compared by value. Arrays and objects are
  compared by reference: every array and object of a decoded payload is a separate
  allocation and every bowler entry is visited once, so two of them are never the same
  reference.\<close>

fun strict_eq :: "jsval \<Rightarrow> jsval \<Rightarrow> bool" where
  "strict_eq JUndefined JUndefined = True"
| "strict_eq JNull JNull = True"
| "strict_eq (JBool a) (JBool b) = (a = b)"
| "strict_eq (JNum a) (JNum b) = (a = b)"
| "strict_eq (JStr a) (JStr b) = (a = b)"
| "strict_eq _ _ = False"

definition primitive :: "jsval \<Rightarrow> bool" where
  "primitive v = (case v of JArr _ \<Rightarrow> False | JObj _ \<Rightarrow> False | _ \<Rightarrow> True)"

subsection \<open>\<^verbatim>\<open>parseInt\<close>\<close>

text \<open>White space and line terminators that \<^verbatim>\<open>parseInt\<close> skips and the pattern \<^verbatim>\<open>\s\<close> matches,
  among 8-bit characters: TAB, LF, VT, FF, CR, SP, NBSP.\<close>

definition is_ws :: "char \<Rightarrow> bool" where
  "is_ws c = (of_char c \<in> {9, 10, 11, 12, 13, 32, 160 :: nat})"

definition digit_val :: "char \<Rightarrow> int option" where
  "digit_val c =
     (let n = of_char c :: int in
      if 48 \<le> n \<and> n \<le> 57 then Some (n - 48)
      else if 97 \<le> n \<and> n \<le> 122 then Some (n - 87)
      else if 65 \<le> n \<and> n \<le> 90 then Some (n - 55)
      else None)"

definition is_digit_in :: "int \<Rightarrow> char \<Rightarrow> bool" where
  "is_digit_in R c = (case digit_val c of None \<Rightarrow> False | Some v \<Rightarrow> v < R)"

definition digits_value :: "int \<Rightarrow> string \<Rightarrow> int" where
  "digits_value R Z =
     foldl (\<lambda>a c. a * R + (case digit_val c of None \<Rightarrow> 0 | Some v \<Rightarrow> v)) 0 Z"

text \<open>\<^verbatim>\<open>parseInt(string)\<close> with no radix: leading white space is dropped, then a sign, then a
  \<^verbatim>\<open>0x\<close> prefix selects radix 16; the longest prefix of digits is read and what follows is
  ignored. \<open>None\<close> is \<^verbatim>\<open>NaN\<close>: no digit to read. The result is the mathematical integer the
  digits denote; \<^verbatim>\<open>parseInt\<close> returns the Number for it, which the engine of the worker
  takes to be the nearest double, also where the language lets an implementation
  approximate the digits after the twentieth.\<close>

definition parseInt_string :: "string \<Rightarrow> int option" where
  "parseInt_string inputString =
     (let S = dropWhile is_ws inputString;
          sign = (if take 1 S = ''-'' then - 1 else 1 :: int);
          S1 = (if take 1 S = ''+'' \<or> take 1 S = ''-'' then drop 1 S else S);
          hex = (take 2 S1 = ''0x'' \<or> take 2 S1 = ''0X'');
          R = (if hex then 16 else 10);
          S2 = (if hex then drop 2 S1 else S1);
          Z = takeWhile (is_digit_in R) S2
      in if Z = [] then None else Some (sign * digits_value R Z))"

text \<open>\<^verbatim>\<open>parseInt(v)\<close>: \<^verbatim>\<open>NaN\<close> when there is no digit, else the Number for the integer read.\<close>

definition parseInt :: "platform \<Rightarrow> jsval \<Rightarrow> js_error + jsnumber" where
  "parseInt P v =
     bnd (ToString P v) (\<lambda>inputString.
     Inr (case parseInt_string inputString of
            None \<Rightarrow> NaN
          | Some mathInt \<Rightarrow> round_int mathInt))"

section \<open>The aggregate: \<^verbatim>\<open>PlayerStats\<close>, \<^verbatim>\<open>TeamStats\<close>, \<^verbatim>\<open>MatchData\<close>\<close>

text \<open>The interface declares \<^verbatim>\<open>PlayerStats.name\<close> a string, but the value stored is
  \<^verbatim>\<open>bowler.PlayerShortName || bowler.PlayerName || ...\<close>, any truthy value of the payload.\<close>

record PlayerStats =
  name :: jsval
  dotBallsBowled :: jsnumber
  dotBallsPlayed :: jsnumber
  treesBowling :: jsnumber

record TeamStats =
  name :: string
  totalDotBallsBowled :: jsnumber
  totalTreesPlanted :: jsnumber
  players :: "PlayerStats list"

record MatchData =
  timestamp :: string
  teams :: "TeamStats list"

definition TREES_PER_DOT_BALL :: jsnumber where
  "TREES_PER_DOT_BALL = Fin 18"

section \<open>\<^verbatim>\<open>processMatchData\<close>\<close>

text \<open>\<^verbatim>\<open>teamStatsMap\<close> is a \<^verbatim>\<open>Map<string, TeamStats>\<close>: an association list in insertion order.
  \<open>map_set\<close> is \<^verbatim>\<open>Map.prototype.set\<close>: it replaces the value of a key in place and appends a
  new key. Mutating the object \<^verbatim>\<open>teamStatsMap.get(k)\<close> returns is \<open>map_set k\<close> of the changed
  record.\<close>

fun map_set :: "string \<Rightarrow> 'v \<Rightarrow> (string \<times> 'v) list \<Rightarrow> (string \<times> 'v) list" where
  "map_set k v [] = [(k, v)]"
| "map_set k v ((k', v') # m) =
     (if k' = k then (k, v) # m else (k', v') # map_set k v m)"

definition new_team :: "string \<Rightarrow> TeamStats" where
  "new_team k =
     \<lparr>TeamStats.name = k, totalDotBallsBowled = Fin 0, totalTreesPlanted = Fin 0, players = []\<rparr>"

definition ensure_team :: "string \<Rightarrow> (string \<times> TeamStats) list \<Rightarrow> (string \<times> TeamStats) list" where
  "ensure_team k m = (if map_of m k = None then map_set k (new_team k) m else m)"

text \<open>\<^verbatim>\<open>inningsData.BattingCard?.[0]?.TeamID || `Team${...}`\<close>, for either card.\<close>

definition team_id_of :: "jsval \<Rightarrow> string \<Rightarrow> string \<Rightarrow> js_error + jsval" where
  "team_id_of inningsData cardKey placeholder =
     bnd (get_prop inningsData cardKey) (\<lambda>c.
     bnd (if nullish c then Inr JUndefined else get_index0 c) (\<lambda>first.
     bnd (if nullish first then Inr JUndefined else get_prop first ''TeamID'') (\<lambda>tid.
     Inr (if truthy tid then tid else JStr placeholder))))"

text \<open>\<^verbatim>\<open>bowler.PlayerShortName || bowler.PlayerName || `Player${bowler.PlayerID}`\<close>\<close>

definition bowlerName_of :: "platform \<Rightarrow> jsval \<Rightarrow> js_error + jsval" where
  "bowlerName_of P bowler =
     bnd (get_prop bowler ''PlayerShortName'') (\<lambda>sn.
     if truthy sn then Inr sn else
     bnd (get_prop bowler ''PlayerName'') (\<lambda>pn.
     if truthy pn then Inr pn else
     bnd (get_prop bowler ''PlayerID'') (\<lambda>pid.
     bnd (ToString P pid) (\<lambda>s. Inr (JStr (''Player'' @ s))))))"

text \<open>\<^verbatim>\<open>parseInt(bowler.DotBalls) || 0\<close>: \<^verbatim>\<open>NaN\<close> and zero are falsy and give zero.\<close>

definition dotBalls_of :: "platform \<Rightarrow> jsval \<Rightarrow> js_error + jsnumber" where
  "dotBalls_of P bowler =
     bnd (get_prop bowler ''DotBalls'') (\<lambda>d.
     bnd (parseInt P d) (\<lambda>r.
     Inr (if r = NaN \<or> r = Fin 0 then Fin 0 else r)))"

text \<open>\<^verbatim>\<open>team.players.find(p => p.name === bowlerName)\<close>, then the update of the player found
  or the push of a new one.\<close>

fun upsert_player ::
  "jsval \<Rightarrow> jsnumber \<Rightarrow> jsnumber \<Rightarrow> PlayerStats list \<Rightarrow> PlayerStats list" where
  "upsert_player bowlerName dotBalls treesPlanted [] =
     [\<lparr>PlayerStats.name = bowlerName, dotBallsBowled = dotBalls, dotBallsPlayed = Fin 0,
       treesBowling = treesPlanted\<rparr>]"
| "upsert_player bowlerName dotBalls treesPlanted (p # ps) =
     (if strict_eq (PlayerStats.name p) bowlerName
      then p\<lparr>dotBallsBowled := num_add (dotBallsBowled p) dotBalls,
              treesBowling := num_add (treesBowling p) treesPlanted\<rparr> # ps
      else p # upsert_player bowlerName dotBalls treesPlanted ps)"

text \<open>The body of \<^verbatim>\<open>bowlersData.forEach\<close>. \<^verbatim>\<open>teamStatsMap.get(bowlingTeam)!\<close> is \<^verbatim>\<open>undefined\<close> for
  a missing key, and the next line then throws.\<close>

definition bowler_step ::
  "platform \<Rightarrow> string \<Rightarrow> (string \<times> TeamStats) list \<Rightarrow> jsval
     \<Rightarrow> js_error + (string \<times> TeamStats) list" where
  "bowler_step P bowlingTeam teamStatsMap bowler =
     bnd (bowlerName_of P bowler) (\<lambda>bowlerName.
     bnd (dotBalls_of P bowler) (\<lambda>dotBalls.
     let treesPlanted = num_mul dotBalls TREES_PER_DOT_BALL in
     case map_of teamStatsMap bowlingTeam of
       None \<Rightarrow> Inl TypeError
     | Some team \<Rightarrow>
         Inr (map_set bowlingTeam
                (team\<lparr>totalDotBallsBowled := num_add (totalDotBallsBowled team) dotBalls,
                      totalTreesPlanted := num_add (totalTreesPlanted team) treesPlanted,
                      players := upsert_player bowlerName dotBalls treesPlanted (players team)\<rparr>)
                teamStatsMap)))"

fun bowlers_loop ::
  "platform \<Rightarrow> string \<Rightarrow> (string \<times> TeamStats) list \<Rightarrow> jsval list
     \<Rightarrow> js_error + (string \<times> TeamStats) list" where
  "bowlers_loop P bowlingTeam m [] = Inr m"
| "bowlers_loop P bowlingTeam m (bowler # rest) =
     bnd (bowler_step P bowlingTeam m bowler) (\<lambda>m'. bowlers_loop P bowlingTeam m' rest)"

text \<open>\<^verbatim>\<open>inningsData.BowlingCard || []\<close>, on which \<^verbatim>\<open>forEach\<close> is called: only an array has it.\<close>

definition bowlersData_of :: "jsval \<Rightarrow> js_error + jsval list" where
  "bowlersData_of inningsData =
     bnd (get_prop inningsData ''BowlingCard'') (\<lambda>c.
     if \<not> truthy c then Inr []
     else (case c of JArr xs \<Rightarrow> Inr xs | _ \<Rightarrow> Inl TypeError))"

text \<open>The body of \<^verbatim>\<open>inningsDataArray.forEach((data, inningsIndex) => ...)\<close>.\<close>

definition innings_step ::
  "platform \<Rightarrow> nat \<Rightarrow> (string \<times> TeamStats) list \<Rightarrow> jsval
     \<Rightarrow> js_error + (string \<times> TeamStats) list" where
  "innings_step P inningsIndex teamStatsMap data =
     bnd (get_prop data (if inningsIndex = 0 then ''Innings1'' else ''Innings2'')) (\<lambda>inningsData.
     if \<not> truthy inningsData then Inr teamStatsMap else
     bnd (team_id_of inningsData ''BattingCard'' (''Team'' @ digits (inningsIndex * 2 + 1)))
       (\<lambda>battingTeamId.
     bnd (team_id_of inningsData ''BowlingCard'' (''Team'' @ digits (inningsIndex * 2 + 2)))
       (\<lambda>bowlingTeamId.
     bnd (toString_method P battingTeamId) (\<lambda>battingTeam.
     bnd (toString_method P bowlingTeamId) (\<lambda>bowlingTeam.
     bnd (bowlersData_of inningsData) (\<lambda>bowlersData.
     bowlers_loop P bowlingTeam
       (ensure_team bowlingTeam (ensure_team battingTeam teamStatsMap)) bowlersData))))))"

fun innings_loop ::
  "platform \<Rightarrow> nat \<Rightarrow> (string \<times> TeamStats) list \<Rightarrow> jsval list
     \<Rightarrow> js_error + (string \<times> TeamStats) list" where
  "innings_loop P inningsIndex m [] = Inr m"
| "innings_loop P inningsIndex m (data # rest) =
     bnd (innings_step P inningsIndex m data) (\<lambda>m'. innings_loop P (Suc inningsIndex) m' rest)"

text \<open>The argument after the platform is \<^verbatim>\<open>new Date().toISOString()\<close> as read at the call.\<close>

definition processMatchData :: "platform \<Rightarrow> string \<Rightarrow> jsval list \<Rightarrow> js_error + MatchData" where
  "processMatchData P now inningsDataArray =
     bnd (innings_loop P 0 [] inningsDataArray) (\<lambda>teamStatsMap.
     Inr \<lparr>timestamp = now, teams = map snd teamStatsMap\<rparr>)"

section \<open>\<^verbatim>\<open>extractMatchId\<close>, \<^verbatim>\<open>buildJsonUrl\<close>\<close>

fun split_on :: "char \<Rightarrow> string \<Rightarrow> string list" where
  "split_on sep [] = [[]]"
| "split_on sep (c # cs) =
     (if c = sep then [] # split_on sep cs
      else (case split_on sep cs of [] \<Rightarrow> [[c]] | seg # segs \<Rightarrow> (c # seg) # segs))"

definition extractMatchId :: "string \<Rightarrow> string" where
  "extractMatchId url = (let segments = split_on CHR ''/'' url in segments ! (length segments - 1))"

definition buildJsonUrl :: "string \<Rightarrow> string list" where
  "buildJsonUrl matchId =
     [''https://ipl-stats-sports-mechanic.s3.ap-south-1.amazonaws.com/ipl/feeds/'' @ matchId
        @ ''-Innings1.js'',
      ''https://ipl-stats-sports-mechanic.s3.ap-south-1.amazonaws.com/ipl/feeds/'' @ matchId
        @ ''-Innings2.js'']"

section \<open>\<^verbatim>\<open>fetchMatchJson\<close>\<close>

text \<open>The pattern \<^verbatim>\<open>/^.*?\((.*)\);?\s*$/\<close>, matched by backtracking as the engine does. The dot
  matches any character but a line terminator: LF and CR, among 8-bit characters.\<close>

definition is_line_terminator :: "char \<Rightarrow> bool" where
  "is_line_terminator c = (c = CHR 0x0A \<or> c = CHR 0x0D)"

text \<open>\<^verbatim>\<open>;?\s*$\<close>: what may follow the closing parenthesis.\<close>

definition tail_ok :: "string \<Rightarrow> bool" where
  "tail_ok s = (list_all is_ws s \<or> (take 1 s = '';'' \<and> list_all is_ws (drop 1 s)))"

text \<open>\<^verbatim>\<open>(.*)\);?\s*$\<close>: the greedy group first tries to take one more character, and closes at
  a parenthesis only when that fails.\<close>

fun capture_from :: "string \<Rightarrow> string option" where
  "capture_from [] = None"
| "capture_from (c # r) =
     (case (if is_line_terminator c then None else capture_from r) of
        Some x \<Rightarrow> Some (c # x)
      | None \<Rightarrow> if c = CHR '')'' \<and> tail_ok r then Some [] else None)"

text \<open>\<^verbatim>\<open>^.*?\(\<close>: the lazy prefix first tries to stop, and takes one more character only when
  that fails. The result is the text of group 1.\<close>

fun jsonp_match :: "string \<Rightarrow> string option" where
  "jsonp_match [] = None"
| "jsonp_match (c # r) =
     (case (if c = CHR ''('' then capture_from r else None) of
        Some x \<Rightarrow> Some x
      | None \<Rightarrow> if is_line_terminator c then None else jsonp_match r)"

text \<open>From \<^verbatim>\<open>text.match\<close> to the \<^verbatim>\<open>return\<close> of the callback: \<^verbatim>\<open>null\<close> when the pattern does not
  match, when group 1 is empty and when \<^verbatim>\<open>JSON.parse\<close> throws.\<close>

definition decode_jsonp :: "(string \<Rightarrow> jsval option) \<Rightarrow> string \<Rightarrow> jsval" where
  "decode_jsonp parse text =
     (case jsonp_match text of
        None \<Rightarrow> JNull
      | Some payload \<Rightarrow>
          if payload = [] then JNull
          else (case parse payload of None \<Rightarrow> JNull | Some v \<Rightarrow> v))"

text \<open>The callback of \<^verbatim>\<open>jsonUrls.map\<close>: every failure is caught inside it and becomes \<^verbatim>\<open>null\<close>.\<close>

definition fetch_url :: "platform \<Rightarrow> string \<Rightarrow> jsval" where
  "fetch_url P url =
     (case fetch P url of
        NetworkFailure \<Rightarrow> JNull
      | Response ok body \<Rightarrow>
          if \<not> ok then JNull
          else (case body of None \<Rightarrow> JNull | Some text \<Rightarrow> decode_jsonp (JSON_parse P) text))"

definition fetchMatchJson :: "platform \<Rightarrow> string \<Rightarrow> js_error + jsval list" where
  "fetchMatchJson P matchId =
     (let responses = map (fetch_url P) (buildJsonUrl matchId);
          validResponses = filter (\<lambda>response. response \<noteq> JNull) responses
      in if length validResponses = 0
         then Inl (Error (''Failed to fetch any valid data for match '' @ matchId))
         else Inr validResponses)"

text \<open>The envelope \<^verbatim>\<open>token(...)\<close> or \<^verbatim>\<open>token(...);\<close> as a shape of the text: a token, an opening
  parenthesis, the payload, a closing parenthesis, then an optional semicolon. Token and
  payload hold no line terminator, which the dot of the pattern does not match, and
  white space may end the text.\<close>

definition envelope_shape :: "string \<Rightarrow> bool" where
  "envelope_shape text =
     (\<exists>token payload rest.
        text = token @ ''('' @ payload @ '')'' @ rest
        \<and> \<not> list_ex is_line_terminator token
        \<and> \<not> list_ex is_line_terminator payload
        \<and> tail_ok rest)"

section \<open>The store\<close>

text \<open>The tables of the D1 database, each a map from its key to the other columns.
  \<^verbatim>\<open>TreePlantingSummary\<close> is keyed by \<^verbatim>\<open>team_id\<close>, as \<^verbatim>\<open>ON CONFLICT(team_id)\<close> says. A numeric
  column holds an SQL integer, or \<^verbatim>\<open>NULL\<close> (\<open>None\<close>).

  Modelled from the spec: \<^verbatim>\<open>schema.sql\<close> is not among the sources. The keys of the other
  tables are those of section 6 of the specification: \<^verbatim>\<open>match_id\<close>, \<^verbatim>\<open>team_id\<close> and \<^verbatim>\<open>player_id\<close>
  for \<^verbatim>\<open>Matches\<close>, \<^verbatim>\<open>Teams\<close> and \<^verbatim>\<open>Players\<close>, the pair match and team, and match and player, for
  the two performance tables.

  Every statement whose parameters \<^verbatim>\<open>bind\<close> takes is taken to succeed: the database does
  not fail.\<close>

record D1 =
  Matches :: "string \<rightharpoonup> string \<times> string \<times> string"
  Teams :: "string \<rightharpoonup> string"
  TeamMatchPerformance :: "string \<times> string \<rightharpoonup> int option \<times> int option"
  Players :: "string \<rightharpoonup> string \<times> string"
  PlayerMatchPerformance :: "string \<times> string \<rightharpoonup> string \<times> int option \<times> int option"
  TreePlantingSummary :: "string \<rightharpoonup> int option \<times> string"

text \<open>The SQL value of a bound number: a safe integer is stored as it is; for any other
  number the platform says what the engine stores.\<close>

definition sql_of :: "platform \<Rightarrow> jsnumber \<Rightarrow> int option" where
  "sql_of P x =
     (case x of
        Fin n \<Rightarrow> if \<bar>n\<bar> \<le> 9007199254740991 then Some n else sql_number P x
      | _ \<Rightarrow> sql_number P x)"

text \<open>\<^verbatim>\<open>a + b\<close> in SQL: \<^verbatim>\<open>NULL\<close> when an operand is, the exact sum when the operands and the
  sum are safe integers, which every storage class of the engine adds exactly.\<close>

definition sql_plus :: "platform \<Rightarrow> int option \<Rightarrow> int option \<Rightarrow> int option" where
  "sql_plus P a b =
     (case a of
        None \<Rightarrow> None
      | Some x \<Rightarrow>
          (case b of
             None \<Rightarrow> None
           | Some y \<Rightarrow>
               if \<bar>x\<bar> \<le> 9007199254740991 \<and> \<bar>y\<bar> \<le> 9007199254740991
                  \<and> \<bar>x + y\<bar> \<le> 9007199254740991
               then Some (x + y) else sql_sum P x y))"

text \<open>The own keys of the object literal \<^verbatim>\<open>teamNames\<close>.\<close>

definition teamNames :: "string \<rightharpoonup> string" where
  "teamNames = map_of
     [(''17'', ''Mumbai Indians''),
      (''13'', ''Chennai Super Kings''),
      (''19'', ''Royal Challengers Bangalore''),
      (''18'', ''Rajasthan Royals''),
      (''16'', ''Kolkata Knight Riders''),
      (''15'', ''Kings XI Punjab''),
      (''14'', ''Delhi Capitals''),
      (''20'', ''Sunrisers Hyderabad''),
      (''35'', ''Gujarat Titans''),
      (''77'', ''Lucknow Super Giants'')]"

text \<open>The names an object literal answers without having them as own keys: the
  properties of \<^verbatim>\<open>Object.prototype\<close>. Their values are functions, and the prototype object
  itself for \<^verbatim>\<open>__proto__\<close>: truthy, and of no type that \<^verbatim>\<open>bind\<close> takes.\<close>

definition Object_prototype_names :: "string list" where
  "Object_prototype_names =
     [''constructor'', ''__defineGetter__'', ''__defineSetter__'', ''hasOwnProperty'',
      ''__lookupGetter__'', ''__lookupSetter__'', ''isPrototypeOf'', ''propertyIsEnumerable'',
      ''toString'', ''valueOf'', ''__proto__'', ''toLocaleString'']"

text \<open>\<^verbatim>\<open>teamNames[teamId] || teamId\<close>, as far as \<^verbatim>\<open>bind\<close> is concerned: the string it is, or
  \<open>None\<close> when it is an inherited value.\<close>

definition teamName_of :: "string \<Rightarrow> string option" where
  "teamName_of teamId =
     (case teamNames teamId of
        Some n \<Rightarrow> Some (if n = [] then teamId else n)
      | None \<Rightarrow> if teamId \<in> set Object_prototype_names then None else Some teamId)"

section \<open>Dates\<close>

text \<open>\<^verbatim>\<open>getCurrentISTDate\<close>, given what \<^verbatim>\<open>new Date()\<close> reads.\<close>

definition getCurrentISTDate :: "int \<Rightarrow> int" where
  "getCurrentISTDate now = now + 19800000"

fun replace_first :: "char \<Rightarrow> char \<Rightarrow> string \<Rightarrow> string" where
  "replace_first a b [] = []"
| "replace_first a b (c # cs) = (if c = a then b # cs else c # replace_first a b cs)"

definition is_dec :: "char \<Rightarrow> bool" where
  "is_dec c = (48 \<le> (of_char c :: nat) \<and> (of_char c :: nat) \<le> 57)"

text \<open>Whether \<^verbatim>\<open>\.\d+Z$\<close> matches at the start of the string.\<close>

definition ms_suffix :: "string \<Rightarrow> bool" where
  "ms_suffix s =
     (case s of
        [] \<Rightarrow> False
      | c # r \<Rightarrow> c = CHR ''.'' \<and> takeWhile is_dec r \<noteq> [] \<and> dropWhile is_dec r = ''Z'')"

fun strip_ms :: "string \<Rightarrow> string" where
  "strip_ms [] = []"
| "strip_ms (c # r) = (if ms_suffix (c # r) then [] else c # strip_ms r)"

definition formatDateTime :: "platform \<Rightarrow> int \<Rightarrow> string" where
  "formatDateTime P date =
     strip_ms (replace_first CHR ''T'' CHR '' '' (toISOString P (date + 19800000)))"

section \<open>\<^verbatim>\<open>storeMatchData\<close>\<close>

text \<open>\<^verbatim>\<open>name.replace(/\s+/g, '_')\<close>: every run of white space becomes one underscore.\<close>

function replace_ws :: "string \<Rightarrow> string" where
  "replace_ws [] = []"
| "replace_ws (c # cs) =
     (if is_ws c then CHR ''_'' # replace_ws (dropWhile is_ws cs) else c # replace_ws cs)"
  by pat_completeness auto
termination
  by (relation "measure length") (auto simp: length_dropWhile_le le_imp_less_Suc)

text \<open>The loop over \<^verbatim>\<open>team.players\<close>. Only a string has a \<^verbatim>\<open>replace\<close> method: for any other
  name the call throws, and what was written before stays written.\<close>

fun store_players ::
  "platform \<Rightarrow> string \<Rightarrow> string \<Rightarrow> PlayerStats list \<Rightarrow> D1 \<Rightarrow> js_error option \<times> D1" where
  "store_players P matchId teamId [] db = (None, db)"
| "store_players P matchId teamId (player # rest) db =
     (case PlayerStats.name player of
        JStr s \<Rightarrow>
          (let playerId = teamId @ ''_'' @ replace_ws s;
               db1 = db\<lparr>Players :=
                 (if Players db playerId = None
                  then (Players db)(playerId \<mapsto> (s, teamId)) else Players db)\<rparr>;
               db2 = db1\<lparr>PlayerMatchPerformance :=
                 (PlayerMatchPerformance db1)((matchId, playerId) \<mapsto>
                    (teamId, sql_of P (dotBallsBowled player), sql_of P (treesBowling player)))\<rparr>
           in store_players P matchId teamId rest db2)
      | _ \<Rightarrow> (Some TypeError, db))"

text \<open>The upsert of the summary row: insert when the team has no row, else add.\<close>

definition update_summary :: "platform \<Rightarrow> string \<Rightarrow> int option \<Rightarrow> string \<Rightarrow> D1 \<Rightarrow> D1" where
  "update_summary P teamId trees ts db =
     db\<lparr>TreePlantingSummary :=
       (case TreePlantingSummary db teamId of
          None \<Rightarrow> (TreePlantingSummary db)(teamId \<mapsto> (trees, ts))
        | Some (total_trees_planted, last_updated) \<Rightarrow>
            (TreePlantingSummary db)(teamId \<mapsto> (sql_plus P total_trees_planted trees, ts)))\<rparr>"

text \<open>The loop over \<^verbatim>\<open>matchData.teams\<close>. When \<^verbatim>\<open>teamNames[teamId]\<close> is an inherited value, the
  \<^verbatim>\<open>bind\<close> of the first statement throws, before any row of the team is written.\<close>

fun store_teams ::
  "platform \<Rightarrow> string \<Rightarrow> string \<Rightarrow> TeamStats list \<Rightarrow> D1 \<Rightarrow> js_error option \<times> D1" where
  "store_teams P matchId ts [] db = (None, db)"
| "store_teams P matchId ts (team # rest) db =
     (let teamId = TeamStats.name team in
      case teamName_of teamId of
        None \<Rightarrow> (Some D1_TYPE_ERROR, db)
      | Some teamName \<Rightarrow>
          (let db1 = db\<lparr>Teams :=
                 (if Teams db teamId = None then (Teams db)(teamId \<mapsto> teamName)
                  else Teams db)\<rparr>;
               db2 = db1\<lparr>TeamMatchPerformance :=
                 (TeamMatchPerformance db1)((matchId, teamId) \<mapsto>
                    (sql_of P (totalDotBallsBowled team), sql_of P (totalTreesPlanted team)))\<rparr>;
               db3 = update_summary P teamId (sql_of P (totalTreesPlanted team)) ts db2
           in case store_players P matchId teamId (players team) db3 of
                (Some e, db4) \<Rightarrow> (Some e, db4)
              | (None, db4) \<Rightarrow> store_teams P matchId ts rest db4))"

text \<open>The first argument after the platform is what \<^verbatim>\<open>new Date()\<close> reads inside
  \<^verbatim>\<open>getCurrentISTDate\<close>. The result is the error thrown, if any, and the database as the
  statements run so far left it.\<close>

definition storeMatchData ::
  "platform \<Rightarrow> int \<Rightarrow> MatchData \<Rightarrow> string \<Rightarrow> D1 \<Rightarrow> js_error option \<times> D1" where
  "storeMatchData P clock matchData matchUrl db =
     (let matchId = extractMatchId matchUrl;
          now = getCurrentISTDate clock;
          ts = formatDateTime P now;
          matchDate = formatDateTime P now;
          db1 = db\<lparr>Matches := (Matches db)(matchId \<mapsto> (matchUrl, matchDate, ts))\<rparr>
      in store_teams P matchId ts (teams matchData) db1)"

section \<open>The scheduled handler\<close>

text \<open>The state an invocation works on: the database, how many times the clock has been
  read, and the console. Of the log lines only two are kept: the one that announces the
  pipeline for a URL and the one that follows the writes of a match.\<close>

record world =
  DB :: D1
  reads :: nat
  console :: "string list"

definition processMatchUrl :: "platform \<Rightarrow> string \<Rightarrow> world \<Rightarrow> (js_error + MatchData) \<times> world" where
  "processMatchUrl P url w =
     (let matchId = extractMatchId url in
      case fetchMatchJson P matchId of
        Inl e \<Rightarrow> (Inl e, w)
      | Inr inningsData \<Rightarrow>
          (processMatchData P (toISOString P (Date_now P (reads w))) inningsData,
           w\<lparr>reads := Suc (reads w)\<rparr>))"

text \<open>\<^verbatim>\<open>SELECT match_id FROM Matches WHERE match_id = ? AND date(match_date) = date(?)\<close> has a
  row.\<close>

definition already_processed :: "platform \<Rightarrow> D1 \<Rightarrow> string \<Rightarrow> string \<Rightarrow> bool" where
  "already_processed P db matchId today =
     (case Matches db matchId of
        None \<Rightarrow> False
      | Some (match_url, match_date, ts) \<Rightarrow>
          (case sql_date P match_date of
             None \<Rightarrow> False
           | Some d \<Rightarrow> sql_date P today = Some d))"

text \<open>The summary that is logged between the aggregation and the writes. The lines are
  not kept, but the template literal \<^verbatim>\<open>`${player.name}:`\<close> converts the name to a string,
  which throws for a name without a string conversion. The team line prints
  \<^verbatim>\<open>teamNames[team.name] || team.name\<close>, which has a string conversion also when it is an
  inherited value, and the other lines print numbers.\<close>

fun log_players :: "platform \<Rightarrow> PlayerStats list \<Rightarrow> js_error option" where
  "log_players P [] = None"
| "log_players P (player # rest) =
     (case ToString P (PlayerStats.name player) of
        Inl e \<Rightarrow> Some e
      | Inr line \<Rightarrow> log_players P rest)"

fun log_teams :: "platform \<Rightarrow> TeamStats list \<Rightarrow> js_error option" where
  "log_teams P [] = None"
| "log_teams P (team # rest) =
     (case log_players P (players team) of
        Some e \<Rightarrow> Some e
      | None \<Rightarrow> log_teams P rest)"

text \<open>The loop \<^verbatim>\<open>for (const url of urls)\<close>. A throw in its body leaves the loop: the result is
  the error and the state at the throw.\<close>

fun process_urls :: "platform \<Rightarrow> string list \<Rightarrow> world \<Rightarrow> js_error option \<times> world" where
  "process_urls P [] w = (None, w)"
| "process_urls P (url # rest) w =
     (let matchId = extractMatchId url;
          today = formatDateTime P (getCurrentISTDate (Date_now P (reads w)));
          w1 = w\<lparr>reads := Suc (reads w)\<rparr>
      in if already_processed P (DB w1) matchId today then process_urls P rest w1
         else
           (let w2 = w1\<lparr>console := console w1 @ [''Processing match: '' @ url]\<rparr> in
            case processMatchUrl P url w2 of
              (Inl e, w3) \<Rightarrow> (Some e, w3)
            | (Inr matchData, w3) \<Rightarrow>
                (case log_teams P (teams matchData) of
                   Some e \<Rightarrow> (Some e, w3)
                 | None \<Rightarrow>
                     (case storeMatchData P (Date_now P (reads w3)) matchData url (DB w3) of
                        (Some e, db') \<Rightarrow> (Some e, w3\<lparr>DB := db', reads := Suc (reads w3)\<rparr>)
                      | (None, db') \<Rightarrow>
                          process_urls P rest
                            (w3\<lparr>DB := db', reads := Suc (reads w3),
                                console := console w3
                                  @ [''Data for match '' @ matchId
                                       @ '' stored in database'']\<rparr>)))))"

definition urls :: "string list" where
  "urls =
     [''https://www.iplt20.com/match/2025/1832'',
      ''https://www.iplt20.com/match/2025/1833'',
      ''https://www.iplt20.com/match/2025/1834'',
      ''https://www.iplt20.com/match/2025/1835'']"

text \<open>\<^verbatim>\<open>scheduled\<close>, with the URL list as an argument. The clock is read three times before the
  loop (the opening log line, \<^verbatim>\<open>today\<close>, the count of today's matches). The \<^verbatim>\<open>catch\<close> around
  the whole body turns a throw into a log line, so the handler returns the state either
  way; the query after the loop only reads.\<close>

definition scheduled_on :: "platform \<Rightarrow> string list \<Rightarrow> world \<Rightarrow> world" where
  "scheduled_on P us w = snd (process_urls P us (w\<lparr>reads := reads w + 3\<rparr>))"

definition scheduled :: "platform \<Rightarrow> world \<Rightarrow> world" where
  "scheduled P w = scheduled_on P urls w"

section \<open>Notions used to state the properties\<close>

text \<open>No two players of a list have names that \<^verbatim>\<open>===\<close> holds of.\<close>

fun names_distinct :: "PlayerStats list \<Rightarrow> bool" where
  "names_distinct [] = True"
| "names_distinct (p # ps) =
     ((\<forall>q \<in> set ps. \<not> strict_eq (PlayerStats.name p) (PlayerStats.name q)) \<and> names_distinct ps)"

text \<open>What the first player of a name holds in a field, if there is such a player.\<close>

definition player_value ::
  "(PlayerStats \<Rightarrow> jsnumber) \<Rightarrow> jsval \<Rightarrow> PlayerStats list \<Rightarrow> jsnumber option" where
  "player_value f n ps =
     (case filter (\<lambda>p. strict_eq (PlayerStats.name p) n) ps of
        [] \<Rightarrow> None
      | p # _ \<Rightarrow> Some (f p))"

text \<open>The sum of a list of numbers as the program forms it: the first number starts a
  record that has none, every other one is added with \<^verbatim>\<open>+=\<close>, from left to right.\<close>

fun accumulate :: "jsnumber option \<Rightarrow> jsnumber list \<Rightarrow> jsnumber option" where
  "accumulate v [] = v"
| "accumulate None (d # ds) = accumulate (Some d) ds"
| "accumulate (Some a) (d # ds) = accumulate (Some (num_add a d)) ds"

text \<open>The same from zero, for a list of numbers read apart.\<close>

definition sum_numbers :: "jsnumber list \<Rightarrow> jsnumber" where
  "sum_numbers xs = foldl num_add (Fin 0) xs"

text \<open>What a bowler entry does to the record of its team.\<close>

definition step_team :: "jsval \<Rightarrow> jsnumber \<Rightarrow> TeamStats \<Rightarrow> TeamStats" where
  "step_team n d team =
     team\<lparr>totalDotBallsBowled := num_add (totalDotBallsBowled team) d,
           totalTreesPlanted := num_add (totalTreesPlanted team) (num_mul d TREES_PER_DOT_BALL),
           players := upsert_player n d (num_mul d TREES_PER_DOT_BALL) (players team)\<rparr>"

text \<open>Whether an entry resolves to a name that \<^verbatim>\<open>===\<close> the given one, and the dot balls that
  the entries of a card of that name bring, in the order of the card.\<close>

definition entry_named :: "platform \<Rightarrow> jsval \<Rightarrow> jsval \<Rightarrow> bool" where
  "entry_named P n bowler =
     (case bowlerName_of P bowler of Inl e \<Rightarrow> False | Inr n' \<Rightarrow> strict_eq n' n)"

definition credits :: "platform \<Rightarrow> jsval \<Rightarrow> jsval list \<Rightarrow> jsnumber list" where
  "credits P n bs =
     map (\<lambda>bowler. case dotBalls_of P bowler of Inl e \<Rightarrow> Fin 0 | Inr d \<Rightarrow> d)
       (filter (entry_named P n) bs)"

text \<open>The size of an input: the magnitudes of the dot-ball counts of all the bowler entries
  that are read, added up. A count that is not finite weighs \<open>2^53\<close>.\<close>

definition entry_weight :: "platform \<Rightarrow> jsval \<Rightarrow> int" where
  "entry_weight P bowler =
     (case dotBalls_of P bowler of
        Inl e \<Rightarrow> 0
      | Inr d \<Rightarrow> (case d of Fin x \<Rightarrow> \<bar>x\<bar> | _ \<Rightarrow> 9007199254740992))"

definition card_weight :: "platform \<Rightarrow> jsval list \<Rightarrow> int" where
  "card_weight P bs = sum_list (map (entry_weight P) bs)"

definition innings_weight :: "platform \<Rightarrow> nat \<Rightarrow> jsval \<Rightarrow> int" where
  "innings_weight P inningsIndex data =
     (case get_prop data (if inningsIndex = 0 then ''Innings1'' else ''Innings2'') of
        Inl e \<Rightarrow> 0
      | Inr inningsData \<Rightarrow>
          if \<not> truthy inningsData then 0
          else (case bowlersData_of inningsData of Inl e \<Rightarrow> 0 | Inr bs \<Rightarrow> card_weight P bs))"

fun input_weight :: "platform \<Rightarrow> nat \<Rightarrow> jsval list \<Rightarrow> int" where
  "input_weight P inningsIndex [] = 0"
| "input_weight P inningsIndex (data # rest) =
     innings_weight P inningsIndex data + input_weight P (Suc inningsIndex) rest"

text \<open>The counts of the players of a team are the integers of a list, their trees 18 times
  these, and the totals of the team are the sums.\<close>

definition exact_team :: "TeamStats \<Rightarrow> int list \<Rightarrow> bool" where
  "exact_team t ds =
     (map dotBallsBowled (players t) = map Fin ds
      \<and> map treesBowling (players t) = map (\<lambda>d. Fin (d * 18)) ds
      \<and> totalDotBallsBowled t = Fin (sum_list ds)
      \<and> totalTreesPlanted t = Fin (sum_list (map (\<lambda>d. d * 18) ds)))"

text \<open>The running total of a team in \<^verbatim>\<open>TreePlantingSummary\<close>, zero when it has no row.\<close>

definition summary_total :: "D1 \<Rightarrow> string \<Rightarrow> int option" where
  "summary_total db teamId =
     (case TreePlantingSummary db teamId of
        None \<Rightarrow> Some 0
      | Some (total_trees_planted, last_updated) \<Rightarrow> total_trees_planted)"

text \<open>The total that the upsert of the summary leaves in the row of a team.\<close>

definition upserted_total :: "platform \<Rightarrow> D1 \<Rightarrow> string \<Rightarrow> int option \<Rightarrow> int option" where
  "upserted_total P db teamId trees =
     (case TreePlantingSummary db teamId of
        None \<Rightarrow> trees
      | Some (total_trees_planted, last_updated) \<Rightarrow> sql_plus P total_trees_planted trees)"

text \<open>The team map holds every team under its own name, once.\<close>

definition keyed_by_name :: "(string \<times> TeamStats) list \<Rightarrow> bool" where
  "keyed_by_name m = (distinct (map fst m) \<and> (\<forall>(k, t) \<in> set m. TeamStats.name t = k))"



text \<open>The values that have a string conversion: every value but an object with an own
  \<^verbatim>\<open>toString\<close> property, and an array that holds one.\<close>

fun printable :: "jsval \<Rightarrow> bool" and printable_list :: "jsval list \<Rightarrow> bool" where
  "printable (JArr xs) = printable_list xs"
| "printable (JObj kvs) = (map_of kvs ''toString'' = None)"
| "printable JUndefined = True"
| "printable JNull = True"
| "printable (JBool b) = True"
| "printable (JNum n) = True"
| "printable (JStr s) = True"
| "printable_list [] = True"
| "printable_list (x # xs) = (printable x \<and> printable_list xs)"

section \<open>Sample inputs\<close>

text \<open>Sample payloads, and the aggregate of the first.\<close>

definition example_bowler :: jsval where
  "example_bowler = JObj [(''PlayerShortName'', JStr ''X''), (''DotBalls'', JStr ''5'')]"

definition example_innings1 :: jsval where
  "example_innings1 =
     JObj [(''Innings1'', JObj
       [(''BattingCard'', JArr [JObj [(''TeamID'', JNum 13)]]),
        (''BowlingCard'', JArr
          [JObj [(''TeamID'', JNum 17), (''PlayerShortName'', JStr ''X''), (''DotBalls'', JStr ''5'')],
           JObj [(''TeamID'', JNum 17), (''PlayerShortName'', JStr ''X''), (''DotBalls'', JStr ''3'')],
           JObj [(''TeamID'', JNum 17), (''PlayerID'', JNum 42), (''DotBalls'', JStr ''n/a'')]])])]"

definition example_team17 :: TeamStats where
  "example_team17 =
     \<lparr>TeamStats.name = ''17'', totalDotBallsBowled = Fin 8, totalTreesPlanted = Fin 144,
      players =
        [\<lparr>PlayerStats.name = JStr ''X'', dotBallsBowled = Fin 8, dotBallsPlayed = Fin 0,
          treesBowling = Fin 144\<rparr>,
         \<lparr>PlayerStats.name = JStr ''Player42'', dotBallsBowled = Fin 0, dotBallsPlayed = Fin 0,
          treesBowling = Fin 0\<rparr>]\<rparr>"

definition example_result :: MatchData where
  "example_result =
     \<lparr>timestamp = ''2025-04-01T14:00:00.000Z'',
      teams =
        [\<lparr>TeamStats.name = ''13'', totalDotBallsBowled = Fin 0, totalTreesPlanted = Fin 0,
          players = []\<rparr>,
         example_team17]\<rparr>"

text \<open>A bowler entry whose \<^verbatim>\<open>DotBalls\<close> is the object \<^verbatim>\<open>{"toString": 0}\<close>, a payload that carries
  it, and two more entries.\<close>

definition odd_bowler :: jsval where
  "odd_bowler = JObj [(''PlayerShortName'', JStr ''X''), (''DotBalls'', JObj [(''toString'', JNum 0)])]"

definition odd_innings1 :: jsval where
  "odd_innings1 =
     JObj [(''Innings1'', JObj
       [(''BattingCard'', JArr [JObj [(''TeamID'', JNum 13)]]),
        (''BowlingCard'', JArr [odd_bowler])])]"

definition blank_bowler :: jsval where
  "blank_bowler = JObj [(''PlayerShortName'', JStr ''Y''), (''DotBalls'', JStr ''n/a'')]"

definition example_bowler3 :: jsval where
  "example_bowler3 = JObj [(''PlayerShortName'', JStr ''X''), (''DotBalls'', JStr ''3'')]"

text \<open>A bowler entry with a dot-ball count below \<open>2^53\<close> whose product with 18 is no double,
  and a card whose first count is \<open>2^53\<close>.\<close>

definition large_bowler :: jsval where
  "large_bowler =
     JObj [(''PlayerShortName'', JStr ''X''), (''DotBalls'', JStr ''1000799917193445'')]"

definition large_innings1 :: jsval where
  "large_innings1 =
     JObj [(''Innings1'', JObj
       [(''BattingCard'', JArr [JObj [(''TeamID'', JNum 13)]]),
        (''BowlingCard'', JArr
          [JObj [(''TeamID'', JNum 17), (''PlayerShortName'', JStr ''A''),
                 (''DotBalls'', JStr ''9007199254740992'')],
           JObj [(''TeamID'', JNum 17), (''PlayerShortName'', JStr ''B''), (''DotBalls'', JStr ''1'')],
           JObj [(''TeamID'', JNum 17), (''PlayerShortName'', JStr ''B''), (''DotBalls'', JStr ''1'')]])])]"

definition large_team17 :: TeamStats where
  "large_team17 =
     \<lparr>TeamStats.name = ''17'', totalDotBallsBowled = Fin 9007199254740992,
      totalTreesPlanted = Fin 162129586585337920,
      players =
        [\<lparr>PlayerStats.name = JStr ''A'', dotBallsBowled = Fin 9007199254740992,
          dotBallsPlayed = Fin 0, treesBowling = Fin 162129586585337856\<rparr>,
         \<lparr>PlayerStats.name = JStr ''B'', dotBallsBowled = Fin 2, dotBallsPlayed = Fin 0,
          treesBowling = Fin 36\<rparr>]\<rparr>"

text \<open>A payload whose bowling team has the identifier \<^verbatim>\<open>constructor\<close>, and its aggregate.\<close>

definition inherited_innings1 :: jsval where
  "inherited_innings1 =
     JObj [(''Innings1'', JObj
       [(''BattingCard'', JArr [JObj [(''TeamID'', JNum 13)]]),
        (''BowlingCard'', JArr
          [JObj [(''TeamID'', JStr ''constructor''), (''PlayerShortName'', JStr ''X''),
                 (''DotBalls'', JStr ''1'')]])])]"

definition inherited_team :: TeamStats where
  "inherited_team =
     \<lparr>TeamStats.name = ''constructor'', totalDotBallsBowled = Fin 1, totalTreesPlanted = Fin 18,
      players =
        [\<lparr>PlayerStats.name = JStr ''X'', dotBallsBowled = Fin 1, dotBallsPlayed = Fin 0,
          treesBowling = Fin 18\<rparr>]\<rparr>"

definition inherited_result :: MatchData where
  "inherited_result =
     \<lparr>timestamp = ''2025-04-01T14:00:00.000Z'',
      teams =
        [\<lparr>TeamStats.name = ''13'', totalDotBallsBowled = Fin 0, totalTreesPlanted = Fin 0,
          players = []\<rparr>,
         inherited_team]\<rparr>"

text \<open>A sample platform. Of match 1832 the first feed cannot be reached and the second
  holds a payload that does not parse; of match 1833 the first feed decodes and the second
  is no envelope; of match 1834 the first feed answers with a status that is not a success
  (and a body that would decode) and the second decodes. \<^verbatim>\<open>JSON.parse\<close> is given on the two
  payloads that parse. The clock stands at 2025-04-01 14:00 UTC. Numbers beyond the safe
  integers are not printed in the samples, and the engine is taken to store \<^verbatim>\<open>NULL\<close> for
  them.\<close>

definition example_innings2 :: jsval where
  "example_innings2 =
     JObj [(''Innings2'', JObj
       [(''BattingCard'', JArr [JObj [(''TeamID'', JNum 17)]]),
        (''BowlingCard'', JArr
          [JObj [(''TeamID'', JNum 13), (''PlayerShortName'', JStr ''Z''), (''DotBalls'', JStr ''4'')]])])]"

definition example_payload1 :: string where
  "example_payload1 = ''{\"Innings1\":{\"BattingCard\":[{\"TeamID\":13}],\"BowlingCard\":[{\"TeamID\":17,\"PlayerShortName\":\"X\",\"DotBalls\":\"5\"},{\"TeamID\":17,\"PlayerShortName\":\"X\",\"DotBalls\":\"3\"},{\"TeamID\":17,\"PlayerID\":42,\"DotBalls\":\"n/a\"}]}}''"

definition example_payload2 :: string where
  "example_payload2 = ''{\"Innings2\":{\"BattingCard\":[{\"TeamID\":17}],\"BowlingCard\":[{\"TeamID\":13,\"PlayerShortName\":\"Z\",\"DotBalls\":\"4\"}]}}''"

definition example_text1 :: string where
  "example_text1 = ''onScoring('' @ example_payload1 @ '');''"

definition example_text2 :: string where
  "example_text2 = ''onScoring('' @ example_payload2 @ '');''"

definition example_parse :: "string \<Rightarrow> jsval option" where
  "example_parse s =
     (if s = example_payload1 then Some example_innings1
      else if s = example_payload2 then Some example_innings2
      else None)"

definition example_fetch :: "string \<Rightarrow> fetch_result" where
  "example_fetch url =
     (if url = ''https://ipl-stats-sports-mechanic.s3.ap-south-1.amazonaws.com/ipl/feeds/1832-Innings2.js''
      then Response True (Some ''onScoring({broken);'')
      else if url = ''https://ipl-stats-sports-mechanic.s3.ap-south-1.amazonaws.com/ipl/feeds/1833-Innings1.js''
      then Response True (Some example_text1)
      else if url = ''https://ipl-stats-sports-mechanic.s3.ap-south-1.amazonaws.com/ipl/feeds/1833-Innings2.js''
      then Response True (Some ''<html>Access Denied</html>'')
      else if url = ''https://ipl-stats-sports-mechanic.s3.ap-south-1.amazonaws.com/ipl/feeds/1834-Innings1.js''
      then Response False (Some example_text1)
      else if url = ''https://ipl-stats-sports-mechanic.s3.ap-south-1.amazonaws.com/ipl/feeds/1834-Innings2.js''
      then Response True (Some example_text2)
      else NetworkFailure)"

definition example_platform :: platform where
  "example_platform =
     \<lparr>fetch = example_fetch,
      JSON_parse = example_parse,
      Date_now = (\<lambda>k. 1743516000000),
      toISOString = (\<lambda>t. if t = 1743516000000 then ''2025-04-01T14:00:00.000Z''
                          else if t = 1743555600000 then ''2025-04-02T01:00:00.000Z''
                          else ''''),
      sql_date = (\<lambda>s. if length s < 10 then None else Some (take 10 s)),
      Number_toString = (\<lambda>n. ''''),
      sql_number = (\<lambda>x. None),
      sql_sum = (\<lambda>x y. None)\<rparr>"

definition empty_world :: world where
  "empty_world =
     \<lparr>DB = \<lparr>Matches = Map.empty, Teams = Map.empty, TeamMatchPerformance = Map.empty,
             Players = Map.empty, PlayerMatchPerformance = Map.empty,
             TreePlantingSummary = Map.empty\<rparr>,
      reads = 0, console = []\<rparr>"

section \<open>Properties of the aggregator\<close>

subsection \<open>Auxiliary facts\<close>

lemma bnd_Inr_iff: "bnd x f = Inr y \<longleftrightarrow> (\<exists>v. x = Inr v \<and> f v = Inr y)"
  by (cases x) (simp_all add: bnd_def)

lemma bnd_Inr [simp]: "bnd (Inr v) f = f v"
  by (simp add: bnd_def)

lemma bnd_Inl [simp]: "bnd (Inl e) f = Inl e"
  by (simp add: bnd_def)

lemma round_int_exact: "\<bar>i\<bar> \<le> 9007199254740992 \<Longrightarrow> round_int i = Fin i"
proof -
  assume a: "\<bar>i\<bar> \<le> 9007199254740992"
  then have r: "round_mag \<bar>i\<bar> = \<bar>i\<bar>" by (simp add: round_mag_def)
  have "(9007199254740992::int) < 2 ^ 1024" by simp
  with a have "\<not> 2 ^ 1024 \<le> \<bar>i\<bar>" by linarith
  with r show ?thesis by (simp add: round_int_def Let_def)
qed

lemma num_add_zero: "num_add a (Fin 0) = a"
  by (cases a) simp_all

lemma num_add_exact: "\<bar>x + y\<bar> \<le> 9007199254740992 \<Longrightarrow> num_add (Fin x) (Fin y) = Fin (x + y)"
  by (simp add: round_int_exact)

lemma trees_exact: "\<bar>d\<bar> * 18 \<le> 9007199254740992 \<Longrightarrow> num_mul (Fin d) TREES_PER_DOT_BALL = Fin (d * 18)"
proof -
  assume "\<bar>d\<bar> * 18 \<le> 9007199254740992"
  then have "\<bar>d * 18\<bar> \<le> 9007199254740992" by (simp add: abs_mult)
  then show ?thesis by (simp add: TREES_PER_DOT_BALL_def round_int_exact)
qed

lemma trees_zero: "num_mul (Fin 0) TREES_PER_DOT_BALL = Fin 0"
  using trees_exact [of 0] by simp

lemma map_of_map_set: "map_of (map_set k v m) k' = (if k' = k then Some v else map_of m k')"
  by (induction m) auto

lemma set_map_set: "set (map_set k v m) \<subseteq> insert (k, v) (set m)"
  by (induction m) (auto split: if_splits)

lemma map_of_in_snd: "map_of m k = Some v \<Longrightarrow> v \<in> snd ` set m"
  by (metis map_of_SomeD image_eqI snd_conv)

lemma strict_eq_sym: "strict_eq a b = strict_eq b a"
  by (cases a; cases b) auto

lemma strict_eq_imp_eq: "strict_eq a b \<Longrightarrow> a = b"
  by (cases a; cases b) auto

lemma strict_eq_refl: "primitive a \<Longrightarrow> strict_eq a a"
  by (cases a) (auto simp: primitive_def)

lemma strict_eq_primitive: "strict_eq a b \<Longrightarrow> primitive a"
  by (cases a; cases b) (auto simp: primitive_def)

lemma names_upsert:
  "PlayerStats.name ` set (upsert_player n d t ps) \<subseteq> insert n (PlayerStats.name ` set ps)"
  by (induction ps) auto

lemma names_distinct_upsert:
  "names_distinct ps \<Longrightarrow> names_distinct (upsert_player n d t ps)"
proof (induction ps)
  case Nil
  then show ?case by simp
next
  case (Cons p ps)
  show ?case
  proof (cases "strict_eq (PlayerStats.name p) n")
    case True
    with Cons.prems show ?thesis by simp
  next
    case False
    have "\<not> strict_eq (PlayerStats.name p) (PlayerStats.name q)"
      if "q \<in> set (upsert_player n d t ps)" for q
    proof -
      from that names_upsert [of n d t ps]
      have "PlayerStats.name q = n \<or> PlayerStats.name q \<in> PlayerStats.name ` set ps" by auto
      with False Cons.prems show ?thesis by auto
    qed
    with False Cons show ?thesis by simp
  qed
qed

lemma player_value_dots_upsert:
  "player_value dotBallsBowled n (upsert_player n' d t ps) =
     (if strict_eq n' n then accumulate (player_value dotBallsBowled n ps) [d]
      else player_value dotBallsBowled n ps)"
proof (induction ps)
  case Nil
  show ?case by (simp add: player_value_def)
next
  case (Cons p ps)
  show ?case
  proof (cases "strict_eq (PlayerStats.name p) n'")
    case True
    then have "PlayerStats.name p = n'" by (rule strict_eq_imp_eq)
    then show ?thesis using True by (simp add: player_value_def)
  next
    case False
    show ?thesis
    proof (cases "strict_eq (PlayerStats.name p) n")
      case True
      then have pn: "PlayerStats.name p = n" by (rule strict_eq_imp_eq)
      have "\<not> strict_eq n' n"
      proof
        assume e: "strict_eq n' n"
        then have "n' = n" by (rule strict_eq_imp_eq)
        with e pn False show False by simp
      qed
      with True False show ?thesis by (simp add: player_value_def)
    next
      case nm: False
      with False Cons show ?thesis by (simp add: player_value_def)
    qed
  qed
qed

lemma player_value_trees_upsert:
  "player_value treesBowling n (upsert_player n' d t ps) =
     (if strict_eq n' n then accumulate (player_value treesBowling n ps) [t]
      else player_value treesBowling n ps)"
proof (induction ps)
  case Nil
  show ?case by (simp add: player_value_def)
next
  case (Cons p ps)
  show ?case
  proof (cases "strict_eq (PlayerStats.name p) n'")
    case True
    then have "PlayerStats.name p = n'" by (rule strict_eq_imp_eq)
    then show ?thesis using True by (simp add: player_value_def)
  next
    case False
    show ?thesis
    proof (cases "strict_eq (PlayerStats.name p) n")
      case True
      then have pn: "PlayerStats.name p = n" by (rule strict_eq_imp_eq)
      have "\<not> strict_eq n' n"
      proof
        assume e: "strict_eq n' n"
        then have "n' = n" by (rule strict_eq_imp_eq)
        with e pn False show False by simp
      qed
      with True False show ?thesis by (simp add: player_value_def)
    next
      case nm: False
      with False Cons show ?thesis by (simp add: player_value_def)
    qed
  qed
qed

lemma accumulate_append: "accumulate v (xs @ ys) = accumulate (accumulate v xs) ys"
  by (induction v xs rule: accumulate.induct) simp_all

lemma accumulate_Some_exact:
  "\<bar>x\<bar> + sum_list (map abs ds) \<le> 9007199254740992 \<Longrightarrow>
     accumulate (Some (Fin x)) (map Fin ds) = Some (Fin (x + sum_list ds))"
proof (induction ds arbitrary: x)
  case Nil
  show ?case by simp
next
  case (Cons d ds)
  from Cons.prems have b: "\<bar>x + d\<bar> \<le> 9007199254740992"
    "\<bar>x + d\<bar> + sum_list (map abs ds) \<le> 9007199254740992"
    using sum_list_abs [of ds] by simp_all
  from Cons.IH [OF b(2)] show ?case
    by (simp add: num_add_exact [OF b(1)] add.assoc del: num_add.simps)
qed

lemma accumulate_None_exact:
  "ds \<noteq> [] \<Longrightarrow> sum_list (map abs ds) \<le> 9007199254740992 \<Longrightarrow>
     accumulate None (map Fin ds) = Some (Fin (sum_list ds))"
  using accumulate_Some_exact [of "hd ds" "tl ds"] by (cases ds) simp_all

lemma trees_map_exact:
  "sum_list (map abs ds) * 18 \<le> 9007199254740992 \<Longrightarrow>
     map (\<lambda>d. num_mul d TREES_PER_DOT_BALL) (map Fin ds) = map Fin (map (\<lambda>d. d * 18) ds)"
proof (induction ds)
  case Nil
  show ?case by simp
next
  case (Cons d ds)
  have "0 \<le> sum_list (map abs ds)" by (rule sum_list_nonneg) auto
  with Cons.prems have "\<bar>d\<bar> * 18 \<le> 9007199254740992"
    "sum_list (map abs ds) * 18 \<le> 9007199254740992" by simp_all
  with Cons.IH show ?case by (simp add: trees_exact)
qed

lemma sum_abs_times: "sum_list (map abs (map (\<lambda>d. d * 18) ds)) = sum_list (map abs ds) * (18::int)"
  by (induction ds) (simp_all add: abs_mult algebra_simps)

lemma sum_times: "sum_list (map (\<lambda>d. d * 18) ds) = sum_list ds * (18::int)"
  by (induction ds) (simp_all add: algebra_simps)

lemma names_distinct_filter:
  "names_distinct ps \<Longrightarrow> length (filter (\<lambda>p. strict_eq (PlayerStats.name p) n) ps) \<le> 1"
proof (induction ps)
  case Nil
  then show ?case by simp
next
  case (Cons p ps)
  show ?case
  proof (cases "strict_eq (PlayerStats.name p) n")
    case True
    then have pn: "PlayerStats.name p = n" by (rule strict_eq_imp_eq)
    have "filter (\<lambda>q. strict_eq (PlayerStats.name q) n) ps = []"
    proof (rule ccontr)
      assume "filter (\<lambda>q. strict_eq (PlayerStats.name q) n) ps \<noteq> []"
      then obtain q where q: "q \<in> set ps" "strict_eq (PlayerStats.name q) n"
        by (auto simp: filter_empty_conv)
      then have "PlayerStats.name q = n" by (auto dest: strict_eq_imp_eq)
      with q pn True Cons.prems show False by auto
    qed
    with True show ?thesis by simp
  next
    case False
    with Cons show ?thesis by simp
  qed
qed

lemma upsert_has_match:
  "primitive n \<Longrightarrow> \<exists>p \<in> set (upsert_player n d t ps). strict_eq (PlayerStats.name p) n"
  by (induction ps) (auto simp: strict_eq_refl dest: strict_eq_imp_eq)

lemma upsert_keeps_match:
  "\<exists>p \<in> set ps. strict_eq (PlayerStats.name p) n \<Longrightarrow>
   \<exists>p \<in> set (upsert_player n' d t ps). strict_eq (PlayerStats.name p) n"
  by (induction ps) auto

subsection \<open>Invariants of the team map\<close>

lemma bowler_step_cases:
  assumes "bowler_step P bt m b = Inr m'"
  obtains n d team where "bowlerName_of P b = Inr n" "dotBalls_of P b = Inr d"
    "map_of m bt = Some team" "m' = map_set bt (step_team n d team) m"
  using assms
  by (auto simp: bowler_step_def bnd_Inr_iff Let_def step_team_def split: option.splits)

lemma bowler_step_inv:
  assumes step: "bowler_step P bt m b = Inr m'"
    and upd: "\<And>t n d. Q t \<Longrightarrow> Q (step_team n d t)"
    and inv: "\<forall>t \<in> snd ` set m. Q t"
  shows "\<forall>t \<in> snd ` set m'. Q t"
proof -
  from step obtain n d team where *: "map_of m bt = Some team"
    "m' = map_set bt (step_team n d team) m"
    by (rule bowler_step_cases)
  from * inv have "Q team" by (auto dest: map_of_in_snd)
  then have "Q (step_team n d team)" by (rule upd)
  with inv * set_map_set [of bt "step_team n d team" m] show ?thesis by auto
qed

lemma bowlers_loop_inv:
  assumes upd: "\<And>t n d. Q t \<Longrightarrow> Q (step_team n d t)"
  shows "bowlers_loop P bt m bs = Inr m' \<Longrightarrow> \<forall>t \<in> snd ` set m. Q t \<Longrightarrow> \<forall>t \<in> snd ` set m'. Q t"
proof (induction bs arbitrary: m)
  case Nil
  then show ?case by simp
next
  case (Cons b bs)
  from Cons.prems(1) obtain m1 where s: "bowler_step P bt m b = Inr m1"
    and l: "bowlers_loop P bt m1 bs = Inr m'"
    by (auto simp: bnd_Inr_iff)
  from bowler_step_inv [of P bt m b m1 Q, OF s upd Cons.prems(2)]
  have "\<forall>t \<in> snd ` set m1. Q t" by simp
  with Cons.IH [OF l] show ?case by blast
qed

lemma ensure_team_inv:
  assumes "\<And>k. Q (new_team k)" "\<forall>t \<in> snd ` set m. Q t"
  shows "\<forall>t \<in> snd ` set (ensure_team k m). Q t"
  using assms set_map_set [of k "new_team k" m] by (auto simp: ensure_team_def)

lemma innings_step_cases:
  assumes "innings_step P i m data = Inr m'"
  obtains "m' = m" "innings_weight P i data = 0"
  | inningsData bat bowl bs where
      "get_prop data (if i = 0 then ''Innings1'' else ''Innings2'') = Inr inningsData"
      "truthy inningsData" "bowlersData_of inningsData = Inr bs"
      "bowlers_loop P bowl (ensure_team bowl (ensure_team bat m)) bs = Inr m'"
      "innings_weight P i data = card_weight P bs"
proof -
  from assms obtain inningsData where
    g: "get_prop data (if i = 0 then ''Innings1'' else ''Innings2'') = Inr inningsData"
    and r: "(if \<not> truthy inningsData then Inr m else
     bnd (team_id_of inningsData ''BattingCard'' (''Team'' @ digits (i * 2 + 1)))
       (\<lambda>battingTeamId.
     bnd (team_id_of inningsData ''BowlingCard'' (''Team'' @ digits (i * 2 + 2)))
       (\<lambda>bowlingTeamId.
     bnd (toString_method P battingTeamId) (\<lambda>battingTeam.
     bnd (toString_method P bowlingTeamId) (\<lambda>bowlingTeam.
     bnd (bowlersData_of inningsData) (\<lambda>bowlersData.
     bowlers_loop P bowlingTeam
       (ensure_team bowlingTeam (ensure_team battingTeam m)) bowlersData)))))) = Inr m'"
    unfolding innings_step_def bnd_Inr_iff by blast
  show thesis
  proof (cases "truthy inningsData")
    case False
    with r g have "m' = m" "innings_weight P i data = 0"
      by (simp_all add: innings_weight_def)
    then show thesis by (rule that(1))
  next
    case True
    with r obtain bat bowl bs where "bowlersData_of inningsData = Inr bs"
      "bowlers_loop P bowl (ensure_team bowl (ensure_team bat m)) bs = Inr m'"
      by (auto simp: bnd_Inr_iff)
    moreover from this True g have "innings_weight P i data = card_weight P bs"
      by (simp add: innings_weight_def)
    ultimately show thesis using g True by (intro that(2))
  qed
qed

lemma innings_step_inv:
  assumes new: "\<And>k. Q (new_team k)"
    and upd: "\<And>t n d. Q t \<Longrightarrow> Q (step_team n d t)"
    and step: "innings_step P i m data = Inr m'"
    and inv: "\<forall>t \<in> snd ` set m. Q t"
  shows "\<forall>t \<in> snd ` set m'. Q t"
  using step
proof (cases rule: innings_step_cases)
  case 1
  with inv show ?thesis by simp
next
  case (2 inningsData bat bowl bs)
  have "\<forall>t \<in> snd ` set (ensure_team bowl (ensure_team bat m)). Q t"
    by (intro ensure_team_inv new inv)
  with bowlers_loop_inv [of Q, OF upd 2(4)] show ?thesis by blast
qed

lemma innings_loop_inv:
  assumes new: "\<And>k. Q (new_team k)"
    and upd: "\<And>t n d. Q t \<Longrightarrow> Q (step_team n d t)"
  shows "innings_loop P i m arr = Inr m' \<Longrightarrow> \<forall>t \<in> snd ` set m. Q t \<Longrightarrow> \<forall>t \<in> snd ` set m'. Q t"
proof (induction arr arbitrary: i m)
  case Nil
  then show ?case by simp
next
  case (Cons data arr)
  from Cons.prems(1) obtain m1 where s: "innings_step P i m data = Inr m1"
    and l: "innings_loop P (Suc i) m1 arr = Inr m'"
    by (auto simp: bnd_Inr_iff)
  from innings_step_inv [of Q, OF new upd s Cons.prems(2)] have "\<forall>t \<in> snd ` set m1. Q t" by simp
  with Cons.IH [OF l] show ?case by blast
qed

lemma processMatchData_inv:
  assumes new: "\<And>k. Q (new_team k)"
    and upd: "\<And>t n d. Q t \<Longrightarrow> Q (step_team n d t)"
    and run: "processMatchData P now arr = Inr md"
    and t: "t \<in> set (teams md)"
  shows "Q t"
proof -
  from run obtain m where l: "innings_loop P 0 [] arr = Inr m" and md: "teams md = map snd m"
    by (auto simp: processMatchData_def bnd_Inr_iff)
  from innings_loop_inv [of Q, OF new upd l] have "\<forall>t \<in> snd ` set m. Q t" by simp
  with md t show ?thesis by auto
qed

lemma bowler_step_team:
  assumes "bowler_step P bt m b = Inr m'" "map_of m bt = Some t"
  shows "\<exists>n d. bowlerName_of P b = Inr n \<and> dotBalls_of P b = Inr d
           \<and> m' = map_set bt (step_team n d t) m \<and> map_of m' bt = Some (step_team n d t)"
  using assms by (auto elim!: bowler_step_cases simp: map_of_map_set)

lemma credits_Cons:
  "credits P n (b # bs) =
     (if entry_named P n b then [case dotBalls_of P b of Inl e \<Rightarrow> Fin 0 | Inr d \<Rightarrow> d] else [])
       @ credits P n bs"
  by (simp add: credits_def)

lemma bowlers_loop_players:
  assumes "bowlers_loop P bt m bs = Inr m'" "map_of m bt = Some t"
  shows "\<exists>t'. map_of m' bt = Some t'
     \<and> (\<forall>n. player_value dotBallsBowled n (players t') =
              accumulate (player_value dotBallsBowled n (players t)) (credits P n bs))
     \<and> (\<forall>n. player_value treesBowling n (players t') =
              accumulate (player_value treesBowling n (players t))
                (map (\<lambda>d. num_mul d TREES_PER_DOT_BALL) (credits P n bs)))
     \<and> (names_distinct (players t) \<longrightarrow> names_distinct (players t'))
     \<and> (\<forall>n. (\<exists>p \<in> set (players t). strict_eq (PlayerStats.name p) n)
               \<or> (\<exists>b \<in> set bs. entry_named P n b)
            \<longrightarrow> (\<exists>p \<in> set (players t'). strict_eq (PlayerStats.name p) n))"
  using assms
proof (induction bs arbitrary: m t)
  case Nil
  then show ?case by (simp add: credits_def)
next
  case (Cons b bs)
  from Cons.prems(1) obtain m1 where s: "bowler_step P bt m b = Inr m1"
    and l: "bowlers_loop P bt m1 bs = Inr m'"
    by (auto simp: bnd_Inr_iff)
  from bowler_step_team [OF s Cons.prems(2)] obtain n0 d0 where
    b: "bowlerName_of P b = Inr n0" "dotBalls_of P b = Inr d0"
    and m1: "map_of m1 bt = Some (step_team n0 d0 t)"
    by blast
  let ?t1 = "step_team n0 d0 t"
  from Cons.IH [OF l m1] obtain t' where t': "map_of m' bt = Some t'"
    and dots: "\<And>n. player_value dotBallsBowled n (players t') =
              accumulate (player_value dotBallsBowled n (players ?t1)) (credits P n bs)"
    and trees: "\<And>n. player_value treesBowling n (players t') =
              accumulate (player_value treesBowling n (players ?t1))
                (map (\<lambda>d. num_mul d TREES_PER_DOT_BALL) (credits P n bs))"
    and dist: "names_distinct (players ?t1) \<Longrightarrow> names_distinct (players t')"
    and ex: "\<And>n. (\<exists>p \<in> set (players ?t1). strict_eq (PlayerStats.name p) n)
               \<or> (\<exists>b \<in> set bs. entry_named P n b)
            \<Longrightarrow> (\<exists>p \<in> set (players t'). strict_eq (PlayerStats.name p) n)"
    by blast
  have credit: "credits P n (b # bs) = (if strict_eq n0 n then [d0] else []) @ credits P n bs" for n
    by (simp add: credits_Cons entry_named_def b)
  have p1: "players ?t1 = upsert_player n0 d0 (num_mul d0 TREES_PER_DOT_BALL) (players t)"
    by (simp add: step_team_def)
  have 1: "player_value dotBallsBowled n (players t') =
              accumulate (player_value dotBallsBowled n (players t)) (credits P n (b # bs))" for n
    unfolding dots p1 player_value_dots_upsert credit accumulate_append by simp
  have 2: "player_value treesBowling n (players t') =
              accumulate (player_value treesBowling n (players t))
                (map (\<lambda>d. num_mul d TREES_PER_DOT_BALL) (credits P n (b # bs)))" for n
    unfolding trees p1 player_value_trees_upsert credit map_append accumulate_append by simp
  have 3: "names_distinct (players t) \<longrightarrow> names_distinct (players t')"
    using dist by (simp add: p1 names_distinct_upsert)
  have 4: "\<exists>p \<in> set (players t'). strict_eq (PlayerStats.name p) n"
    if "(\<exists>p \<in> set (players t). strict_eq (PlayerStats.name p) n)
               \<or> (\<exists>b \<in> set (b # bs). entry_named P n b)" for n
  proof -
    from that consider "\<exists>p \<in> set (players t). strict_eq (PlayerStats.name p) n"
      | "entry_named P n b" | "\<exists>b \<in> set bs. entry_named P n b" by auto
    then show ?thesis
    proof cases
      case 1
      then have "\<exists>p \<in> set (players ?t1). strict_eq (PlayerStats.name p) n"
        unfolding p1 by (rule upsert_keeps_match)
      then show ?thesis using ex by blast
    next
      case 2
      then have e: "strict_eq n0 n" by (simp add: entry_named_def b)
      then have "n0 = n" "primitive n0" by (auto dest: strict_eq_imp_eq strict_eq_primitive)
      then have "\<exists>p \<in> set (players ?t1). strict_eq (PlayerStats.name p) n"
        unfolding p1 using upsert_has_match [of n0] by blast
      then show ?thesis using ex by blast
    next
      case 3
      then show ?thesis using ex by blast
    qed
  qed
  from t' 1 2 3 4 show ?case by blast
qed

lemma upsert_player_cases:
  "(\<exists>ps1 p ps2. ps = ps1 @ p # ps2
       \<and> (\<forall>q \<in> set ps1. \<not> strict_eq (PlayerStats.name q) n)
       \<and> strict_eq (PlayerStats.name p) n
       \<and> upsert_player n d t ps =
           ps1 @ p\<lparr>dotBallsBowled := num_add (dotBallsBowled p) d,
                    treesBowling := num_add (treesBowling p) t\<rparr> # ps2)
   \<or> ((\<forall>q \<in> set ps. \<not> strict_eq (PlayerStats.name q) n)
       \<and> upsert_player n d t ps =
           ps @ [\<lparr>PlayerStats.name = n, dotBallsBowled = d, dotBallsPlayed = Fin 0,
                  treesBowling = t\<rparr>])"
proof (induction ps)
  case Nil
  show ?case by simp
next
  case (Cons a ps)
  show ?case
  proof (cases "strict_eq (PlayerStats.name a) n")
    case True
    then have "a # ps = [] @ a # ps \<and> (\<forall>q \<in> set []. \<not> strict_eq (PlayerStats.name q) n)
       \<and> strict_eq (PlayerStats.name a) n
       \<and> upsert_player n d t (a # ps) =
           [] @ a\<lparr>dotBallsBowled := num_add (dotBallsBowled a) d,
                   treesBowling := num_add (treesBowling a) t\<rparr> # ps"
      by simp
    then show ?thesis by blast
  next
    case False
    from Cons.IH show ?thesis
    proof
      assume "\<exists>ps1 p ps2. ps = ps1 @ p # ps2
       \<and> (\<forall>q \<in> set ps1. \<not> strict_eq (PlayerStats.name q) n)
       \<and> strict_eq (PlayerStats.name p) n
       \<and> upsert_player n d t ps =
           ps1 @ p\<lparr>dotBallsBowled := num_add (dotBallsBowled p) d,
                    treesBowling := num_add (treesBowling p) t\<rparr> # ps2"
      then obtain ps1 p ps2 where *: "ps = ps1 @ p # ps2"
        "\<forall>q \<in> set ps1. \<not> strict_eq (PlayerStats.name q) n"
        "strict_eq (PlayerStats.name p) n"
        "upsert_player n d t ps =
           ps1 @ p\<lparr>dotBallsBowled := num_add (dotBallsBowled p) d,
                    treesBowling := num_add (treesBowling p) t\<rparr> # ps2"
        by blast
      with False have "a # ps = (a # ps1) @ p # ps2
        \<and> (\<forall>q \<in> set (a # ps1). \<not> strict_eq (PlayerStats.name q) n)
        \<and> strict_eq (PlayerStats.name p) n
        \<and> upsert_player n d t (a # ps) =
           (a # ps1) @ p\<lparr>dotBallsBowled := num_add (dotBallsBowled p) d,
                          treesBowling := num_add (treesBowling p) t\<rparr> # ps2"
        by simp
      then show ?thesis by blast
    next
      assume "(\<forall>q \<in> set ps. \<not> strict_eq (PlayerStats.name q) n)
       \<and> upsert_player n d t ps =
           ps @ [\<lparr>PlayerStats.name = n, dotBallsBowled = d, dotBallsPlayed = Fin 0,
                  treesBowling = t\<rparr>]"
      with False show ?thesis by simp
    qed
  qed
qed

lemma bowler_step_run:
  assumes "bowlerName_of P bowler = Inr n" "dotBalls_of P bowler = Inr d" "map_of m bt = Some team"
  shows "bowler_step P bt m bowler = Inr (map_set bt (step_team n d team) m)"
  using assms by (simp add: bowler_step_def step_team_def Let_def)

subsection \<open>Trees per dot ball\<close>

text \<open>
  C4, as stated, fails. The numbers of the program are doubles. The entry with
  \<^verbatim>\<open>DotBalls: "1000799917193445"\<close> has a count \<open>d\<close> below \<open>2^53\<close>, which \<^verbatim>\<open>parseInt\<close> reads
  exactly; \<open>d * 18\<close> is 18014398509482010, which lies halfway between two doubles, and the
  trees that the player and the team of the entry get are 18014398509482008.
\<close>

theorem large_count_trees_are_rounded:
  "dotBalls_of example_platform large_bowler = Inr (Fin 1000799917193445)
   \<and> bowlerName_of example_platform large_bowler = Inr (JStr ''X'')
   \<and> bowler_step example_platform ''17'' [(''17'', new_team ''17'')] large_bowler =
       Inr [(''17'',
         \<lparr>TeamStats.name = ''17'', totalDotBallsBowled = Fin 1000799917193445,
          totalTreesPlanted = Fin 18014398509482008,
          players =
            [\<lparr>PlayerStats.name = JStr ''X'', dotBallsBowled = Fin 1000799917193445,
              dotBallsPlayed = Fin 0, treesBowling = Fin 18014398509482008\<rparr>]\<rparr>)]
   \<and> (1000799917193445 * 18 :: int) = 18014398509482010"
proof -
  have 1: "dotBalls_of example_platform large_bowler = Inr (Fin 1000799917193445)"
    by code_simp
  have 2: "bowlerName_of example_platform large_bowler = Inr (JStr ''X'')"
    by code_simp
  have 3: "bowler_step example_platform ''17'' [(''17'', new_team ''17'')] large_bowler =
       Inr [(''17'',
         \<lparr>TeamStats.name = ''17'', totalDotBallsBowled = Fin 1000799917193445,
          totalTreesPlanted = Fin 18014398509482008,
          players =
            [\<lparr>PlayerStats.name = JStr ''X'', dotBallsBowled = Fin 1000799917193445,
              dotBallsPlayed = Fin 0, treesBowling = Fin 18014398509482008\<rparr>]\<rparr>)]"
    by code_simp
  have 4: "(1000799917193445 * 18 :: int) = 18014398509482010" by simp
  from 1 2 3 4 show ?thesis by (simp only: simp_thms)
qed

text \<open>
  C4, amended. A bowler entry whose parsed dot-ball count is the integer \<open>d\<close>, with
  \<open>d \<ge> 0\<close>, derives the double nearest to \<open>d * 18\<close> as its trees, which is \<open>d * 18\<close> itself
  when \<open>d * 18 \<le> 2^53\<close>. The step adds \<open>d\<close> and these trees, with the addition of doubles, to
  the totals of the bowling team and to one player of that team: to the first player whose
  name \<^verbatim>\<open>===\<close> the entry's name, or to a new player appended with these values when there is
  none. Such an addition to a total \<open>y\<close> is exact when the sum \<open>y + d * 18\<close> is within \<open>2^53\<close>.
\<close>

theorem trees_are_18_per_dot_ball:
  assumes "dotBalls_of P bowler = Inr (Fin d)" and "0 \<le> d"
    and "bowlerName_of P bowler = Inr n" and "map_of m bt = Some team"
  shows "num_mul (Fin d) TREES_PER_DOT_BALL = round_int (d * 18)
     \<and> (d * 18 \<le> 9007199254740992 \<longrightarrow> round_int (d * 18) = Fin (d * 18))
     \<and> (\<forall>y. \<bar>y + d * 18\<bar> \<le> 9007199254740992 \<longrightarrow>
           num_add (Fin y) (Fin (d * 18)) = Fin (y + d * 18))
     \<and> (\<exists>team'. bowler_step P bt m bowler = Inr (map_set bt team' m)
          \<and> map_of (map_set bt team' m) bt = Some team'
          \<and> totalDotBallsBowled team' = num_add (totalDotBallsBowled team) (Fin d)
          \<and> totalTreesPlanted team' = num_add (totalTreesPlanted team) (round_int (d * 18))
          \<and> ((\<exists>ps1 p ps2. players team = ps1 @ p # ps2
                 \<and> (\<forall>q \<in> set ps1. \<not> strict_eq (PlayerStats.name q) n)
                 \<and> strict_eq (PlayerStats.name p) n
                 \<and> players team' =
                     ps1 @ p\<lparr>dotBallsBowled := num_add (dotBallsBowled p) (Fin d),
                              treesBowling := num_add (treesBowling p) (round_int (d * 18))\<rparr>
                       # ps2)
              \<or> ((\<forall>q \<in> set (players team). \<not> strict_eq (PlayerStats.name q) n)
                 \<and> players team' =
                     players team @ [\<lparr>PlayerStats.name = n, dotBallsBowled = Fin d,
                                      dotBallsPlayed = Fin 0,
                                      treesBowling = round_int (d * 18)\<rparr>])))"
proof -
  let ?team' = "step_team n (Fin d) team"
  have mul: "num_mul (Fin d) TREES_PER_DOT_BALL = round_int (d * 18)"
    by (simp add: TREES_PER_DOT_BALL_def)
  have ex: "round_int (d * 18) = Fin (d * 18)" if "d * 18 \<le> 9007199254740992"
    using that assms(2) by (intro round_int_exact) simp
  have add: "num_add (Fin y) (Fin (d * 18)) = Fin (y + d * 18)"
    if "\<bar>y + d * 18\<bar> \<le> 9007199254740992" for y
    using that by (rule num_add_exact)
  have "bowler_step P bt m bowler = Inr (map_set bt ?team' m)"
    using assms(3,1,4) by (rule bowler_step_run)
  moreover have "map_of (map_set bt ?team' m) bt = Some ?team'"
    by (simp add: map_of_map_set)
  moreover have "totalDotBallsBowled ?team' = num_add (totalDotBallsBowled team) (Fin d)"
    "totalTreesPlanted ?team' = num_add (totalTreesPlanted team) (round_int (d * 18))"
    "players ?team' = upsert_player n (Fin d) (round_int (d * 18)) (players team)"
    by (simp_all add: step_team_def mul del: num_mul.simps)
  ultimately have "\<exists>team'. bowler_step P bt m bowler = Inr (map_set bt team' m)
          \<and> map_of (map_set bt team' m) bt = Some team'
          \<and> totalDotBallsBowled team' = num_add (totalDotBallsBowled team) (Fin d)
          \<and> totalTreesPlanted team' = num_add (totalTreesPlanted team) (round_int (d * 18))
          \<and> ((\<exists>ps1 p ps2. players team = ps1 @ p # ps2
                 \<and> (\<forall>q \<in> set ps1. \<not> strict_eq (PlayerStats.name q) n)
                 \<and> strict_eq (PlayerStats.name p) n
                 \<and> players team' =
                     ps1 @ p\<lparr>dotBallsBowled := num_add (dotBallsBowled p) (Fin d),
                              treesBowling := num_add (treesBowling p) (round_int (d * 18))\<rparr>
                       # ps2)
              \<or> ((\<forall>q \<in> set (players team). \<not> strict_eq (PlayerStats.name q) n)
                 \<and> players team' =
                     players team @ [\<lparr>PlayerStats.name = n, dotBallsBowled = Fin d,
                                      dotBallsPlayed = Fin 0,
                                      treesBowling = round_int (d * 18)\<rparr>]))"
    using upsert_player_cases [of "players team" n "Fin d" "round_int (d * 18)"]
    by (intro exI [of _ ?team']) simp
  with mul ex add show ?thesis by blast
qed

theorem trees_are_18_per_dot_ball_witness:
  "dotBalls_of example_platform example_bowler = Inr (Fin 5) \<and> (0::int) \<le> 5
   \<and> bowlerName_of example_platform example_bowler = Inr (JStr ''X'')
   \<and> num_mul (Fin 5) TREES_PER_DOT_BALL = Fin 90
   \<and> (\<exists>team'. bowler_step example_platform ''17'' [(''17'', new_team ''17'')] example_bowler =
                 Inr (map_set ''17'' team' [(''17'', new_team ''17'')])
        \<and> totalDotBallsBowled team' = Fin 5
        \<and> totalTreesPlanted team' = Fin 90)"
proof -
  have h1: "dotBalls_of example_platform example_bowler = Inr (Fin 5)" by code_simp
  have h2: "(0::int) \<le> 5" by simp
  have h3: "bowlerName_of example_platform example_bowler = Inr (JStr ''X'')" by code_simp
  have h4: "map_of [(''17'', new_team ''17'')] ''17'' = Some (new_team ''17'')" by simp
  note inst = trees_are_18_per_dot_ball [OF h1 h2 h3 h4]
  from inst have r: "round_int (5 * 18) = Fin (5 * 18)" by simp
  from inst have m: "num_mul (Fin 5) TREES_PER_DOT_BALL = Fin 90" unfolding r by simp
  from inst obtain team' where
    "bowler_step example_platform ''17'' [(''17'', new_team ''17'')] example_bowler =
       Inr (map_set ''17'' team' [(''17'', new_team ''17'')])"
    "totalDotBallsBowled team' = num_add (totalDotBallsBowled (new_team ''17'')) (Fin 5)"
    "totalTreesPlanted team' = num_add (totalTreesPlanted (new_team ''17'')) (round_int (5 * 18))"
    by blast
  then have "\<exists>team'. bowler_step example_platform ''17'' [(''17'', new_team ''17'')] example_bowler =
                 Inr (map_set ''17'' team' [(''17'', new_team ''17'')])
        \<and> totalDotBallsBowled team' = Fin 5
        \<and> totalTreesPlanted team' = Fin 90"
    unfolding r by (intro exI [of _ team']) (simp add: new_team_def)
  with h1 h3 m show ?thesis by simp
qed

subsection \<open>Team totals\<close>

lemma entry_weight_nonneg: "0 \<le> entry_weight P b"
  by (simp add: entry_weight_def split: sum.splits jsnumber.splits)

lemma card_weight_nonneg: "0 \<le> card_weight P bs"
  unfolding card_weight_def by (rule sum_list_nonneg) (auto simp: entry_weight_nonneg)

lemma innings_weight_nonneg: "0 \<le> innings_weight P i data"
  by (simp add: innings_weight_def card_weight_nonneg split: sum.splits)

lemma input_weight_nonneg: "0 \<le> input_weight P i arr"
  by (induction arr arbitrary: i) (simp_all add: innings_weight_nonneg)

lemma upsert_exact:
  assumes "map dotBallsBowled ps = map Fin ds"
    and "map treesBowling ps = map (\<lambda>d. Fin (d * 18)) ds"
    and "(sum_list (map abs ds) + \<bar>d\<bar>) * 18 \<le> 9007199254740992"
  shows "\<exists>ds'. map dotBallsBowled (upsert_player n (Fin d) (Fin (d * 18)) ps) = map Fin ds'
     \<and> map treesBowling (upsert_player n (Fin d) (Fin (d * 18)) ps) = map (\<lambda>d. Fin (d * 18)) ds'
     \<and> sum_list ds' = sum_list ds + d
     \<and> sum_list (map abs ds') \<le> sum_list (map abs ds) + \<bar>d\<bar>"
  using assms
proof (induction ps arbitrary: ds)
  case Nil
  then have "ds = []" by simp
  then have "map dotBallsBowled (upsert_player n (Fin d) (Fin (d * 18)) []) = map Fin [d]
     \<and> map treesBowling (upsert_player n (Fin d) (Fin (d * 18)) []) = map (\<lambda>d. Fin (d * 18)) [d]
     \<and> sum_list [d] = sum_list ds + d
     \<and> sum_list (map abs [d]) \<le> sum_list (map abs ds) + \<bar>d\<bar>"
    by simp
  then show ?case by blast
next
  case (Cons p ps)
  from Cons.prems(1) obtain e es where ds: "ds = e # es" by (cases ds) auto
  with Cons.prems have p: "dotBallsBowled p = Fin e" "treesBowling p = Fin (e * 18)"
    and rest: "map dotBallsBowled ps = map Fin es"
      "map treesBowling ps = map (\<lambda>d. Fin (d * 18)) es"
    by simp_all
  have nn: "0 \<le> sum_list (map abs es)" by (rule sum_list_nonneg) auto
  show ?case
  proof (cases "strict_eq (PlayerStats.name p) n")
    case True
    from Cons.prems(3) nn have "\<bar>e + d\<bar> \<le> 9007199254740992"
      "\<bar>e * 18 + d * 18\<bar> \<le> 9007199254740992"
      unfolding ds by simp_all
    then have a: "num_add (Fin e) (Fin d) = Fin (e + d)"
      "num_add (Fin (e * 18)) (Fin (d * 18)) = Fin ((e + d) * 18)"
      by (simp_all add: num_add_exact algebra_simps del: num_add.simps)
    have "map dotBallsBowled (upsert_player n (Fin d) (Fin (d * 18)) (p # ps))
          = map Fin ((e + d) # es)
     \<and> map treesBowling (upsert_player n (Fin d) (Fin (d * 18)) (p # ps))
          = map (\<lambda>d. Fin (d * 18)) ((e + d) # es)
     \<and> sum_list ((e + d) # es) = sum_list ds + d
     \<and> sum_list (map abs ((e + d) # es)) \<le> sum_list (map abs ds) + \<bar>d\<bar>"
      using True p rest a unfolding ds by (simp del: num_add.simps)
    then show ?thesis by blast
  next
    case False
    from Cons.prems(3) have "(sum_list (map abs es) + \<bar>d\<bar>) * 18 \<le> 9007199254740992"
      unfolding ds by simp
    from Cons.IH [OF rest this] obtain es' where
      es': "map dotBallsBowled (upsert_player n (Fin d) (Fin (d * 18)) ps) = map Fin es'"
      "map treesBowling (upsert_player n (Fin d) (Fin (d * 18)) ps) = map (\<lambda>d. Fin (d * 18)) es'"
      "sum_list es' = sum_list es + d"
      "sum_list (map abs es') \<le> sum_list (map abs es) + \<bar>d\<bar>"
      by blast
    have "map dotBallsBowled (upsert_player n (Fin d) (Fin (d * 18)) (p # ps))
          = map Fin (e # es')
     \<and> map treesBowling (upsert_player n (Fin d) (Fin (d * 18)) (p # ps))
          = map (\<lambda>d. Fin (d * 18)) (e # es')
     \<and> sum_list (e # es') = sum_list ds + d
     \<and> sum_list (map abs (e # es')) \<le> sum_list (map abs ds) + \<bar>d\<bar>"
      using False p es' unfolding ds by simp
    then show ?thesis by blast
  qed
qed

lemma step_team_exact:
  assumes "exact_team t ds" and "(sum_list (map abs ds) + \<bar>d\<bar>) * 18 \<le> 9007199254740992"
  shows "\<exists>ds'. exact_team (step_team n (Fin d) t) ds'
     \<and> sum_list (map abs ds') \<le> sum_list (map abs ds) + \<bar>d\<bar>"
proof -
  have nn: "0 \<le> sum_list (map abs ds)" by (rule sum_list_nonneg) auto
  with assms(2) have "\<bar>d\<bar> * 18 \<le> 9007199254740992" by simp
  then have mul: "num_mul (Fin d) TREES_PER_DOT_BALL = Fin (d * 18)" by (rule trees_exact)
  from assms(1) have t: "map dotBallsBowled (players t) = map Fin ds"
    "map treesBowling (players t) = map (\<lambda>d. Fin (d * 18)) ds"
    "totalDotBallsBowled t = Fin (sum_list ds)"
    "totalTreesPlanted t = Fin (sum_list ds * 18)"
    by (simp_all add: exact_team_def sum_times)
  from upsert_exact [OF t(1,2) assms(2), of n] obtain ds' where
    ds': "map dotBallsBowled (upsert_player n (Fin d) (Fin (d * 18)) (players t)) = map Fin ds'"
    "map treesBowling (upsert_player n (Fin d) (Fin (d * 18)) (players t))
       = map (\<lambda>d. Fin (d * 18)) ds'"
    "sum_list ds' = sum_list ds + d"
    "sum_list (map abs ds') \<le> sum_list (map abs ds) + \<bar>d\<bar>"
    by blast
  from assms(2) sum_list_abs [of ds] have "\<bar>sum_list ds + d\<bar> \<le> 9007199254740992"
    "\<bar>sum_list ds * 18 + d * 18\<bar> \<le> 9007199254740992"
    by simp_all
  then have a: "num_add (Fin (sum_list ds)) (Fin d) = Fin (sum_list ds + d)"
    "num_add (Fin (sum_list ds * 18)) (Fin (d * 18)) = Fin ((sum_list ds + d) * 18)"
    by (simp_all add: num_add_exact algebra_simps del: num_add.simps)
  have "exact_team (step_team n (Fin d) t) ds'"
    unfolding exact_team_def step_team_def mul sum_times
    using ds' t a by (simp del: num_add.simps num_mul.simps)
  with ds'(4) show ?thesis by blast
qed

lemma bowlers_loop_exact:
  assumes "bowlers_loop P bt m bs = Inr m'"
    and "\<forall>t \<in> snd ` set m. \<exists>ds. exact_team t ds \<and> sum_list (map abs ds) \<le> B"
    and "(B + card_weight P bs) * 18 \<le> 9007199254740992"
  shows "\<forall>t \<in> snd ` set m'. \<exists>ds. exact_team t ds \<and> sum_list (map abs ds) \<le> B + card_weight P bs"
  using assms
proof (induction bs arbitrary: m B)
  case Nil
  then show ?case by (simp add: card_weight_def)
next
  case (Cons b bs)
  from Cons.prems(1) obtain m1 where s: "bowler_step P bt m b = Inr m1"
    and l: "bowlers_loop P bt m1 bs = Inr m'"
    by (auto simp: bnd_Inr_iff)
  from s obtain n d team where b: "dotBalls_of P b = Inr d" "map_of m bt = Some team"
    "m1 = map_set bt (step_team n d team) m"
    by (rule bowler_step_cases)
  have cw: "card_weight P (b # bs) = entry_weight P b + card_weight P bs"
    by (simp add: card_weight_def)
  from b(2) have "team \<in> snd ` set m" by (rule map_of_in_snd)
  with Cons.prems(2) obtain ds where ds: "exact_team team ds" "sum_list (map abs ds) \<le> B"
    by blast
  have nn: "0 \<le> sum_list (map abs ds)" by (rule sum_list_nonneg) auto
  with ds(2) have B: "0 \<le> B" by simp
  have small: "entry_weight P b < 9007199254740992"
    using Cons.prems(3) B card_weight_nonneg [of P bs] unfolding cw by simp
  then obtain x where d: "d = Fin x" "entry_weight P b = \<bar>x\<bar>"
    using b(1) by (cases d) (simp_all add: entry_weight_def)
  from Cons.prems(3) card_weight_nonneg [of P bs] ds(2)
  have "(sum_list (map abs ds) + \<bar>x\<bar>) * 18 \<le> 9007199254740992"
    unfolding cw d(2) by simp
  from step_team_exact [OF ds(1) this, of n] obtain ds' where
    ds': "exact_team (step_team n (Fin x) team) ds'"
    "sum_list (map abs ds') \<le> sum_list (map abs ds) + \<bar>x\<bar>"
    by blast
  have inv1: "\<forall>t \<in> snd ` set m1. \<exists>ds. exact_team t ds \<and> sum_list (map abs ds) \<le> B + \<bar>x\<bar>"
  proof
    fix t assume "t \<in> snd ` set m1"
    then obtain k where "(k, t) \<in> set (map_set bt (step_team n (Fin x) team) m)"
      unfolding b(3) d(1) by auto
    with set_map_set [of bt "step_team n (Fin x) team" m]
    have "(k, t) = (bt, step_team n (Fin x) team) \<or> (k, t) \<in> set m" by blast
    then consider "t = step_team n (Fin x) team" | "t \<in> snd ` set m"
      by force
    then show "\<exists>ds. exact_team t ds \<and> sum_list (map abs ds) \<le> B + \<bar>x\<bar>"
    proof cases
      case 1
      with ds' ds(2) show ?thesis by (intro exI [of _ ds']) simp
    next
      case 2
      with Cons.prems(2) obtain es where "exact_team t es" "sum_list (map abs es) \<le> B"
        by blast
      then show ?thesis by (intro exI [of _ es]) simp
    qed
  qed
  from Cons.prems(3) have "(B + \<bar>x\<bar> + card_weight P bs) * 18 \<le> 9007199254740992"
    unfolding cw d(2) by (simp add: algebra_simps)
  from Cons.IH [OF l inv1 this] show ?case
    unfolding cw d(2) by (simp add: algebra_simps)
qed

lemma exact_new_team: "exact_team (new_team k) []"
  by (simp add: exact_team_def new_team_def)

lemma innings_step_exact:
  assumes "innings_step P i m data = Inr m'"
    and "\<forall>t \<in> snd ` set m. \<exists>ds. exact_team t ds \<and> sum_list (map abs ds) \<le> B"
    and "(B + innings_weight P i data) * 18 \<le> 9007199254740992"
    and "0 \<le> B"
  shows "\<forall>t \<in> snd ` set m'. \<exists>ds. exact_team t ds
            \<and> sum_list (map abs ds) \<le> B + innings_weight P i data"
  using assms(1)
proof (cases rule: innings_step_cases)
  case 1
  with assms(2) show ?thesis by simp
next
  case (2 inningsData bat bowl bs)
  let ?Q = "\<lambda>t. \<exists>ds. exact_team t ds \<and> sum_list (map abs ds) \<le> B"
  have new: "?Q (new_team k)" for k
    using exact_new_team [of k] assms(4) by (intro exI [of _ "[]"]) simp
  have "\<forall>t \<in> snd ` set (ensure_team bowl (ensure_team bat m)). ?Q t"
    by (intro ensure_team_inv [of ?Q] new assms(2))
  from bowlers_loop_exact [OF 2(4) this] assms(3) show ?thesis
    unfolding 2(5) by blast
qed

lemma innings_loop_exact:
  assumes "innings_loop P i m arr = Inr m'"
    and "\<forall>t \<in> snd ` set m. \<exists>ds. exact_team t ds \<and> sum_list (map abs ds) \<le> B"
    and "(B + input_weight P i arr) * 18 \<le> 9007199254740992"
    and "0 \<le> B"
  shows "\<forall>t \<in> snd ` set m'. \<exists>ds. exact_team t ds
            \<and> sum_list (map abs ds) \<le> B + input_weight P i arr"
  using assms
proof (induction arr arbitrary: i m B)
  case Nil
  then show ?case by simp
next
  case (Cons data arr)
  from Cons.prems(1) obtain m1 where s: "innings_step P i m data = Inr m1"
    and l: "innings_loop P (Suc i) m1 arr = Inr m'"
    by (auto simp: bnd_Inr_iff)
  from Cons.prems(3) input_weight_nonneg [of P "Suc i" arr]
  have b1: "(B + innings_weight P i data) * 18 \<le> 9007199254740992" by simp
  note inv1 = innings_step_exact [OF s Cons.prems(2) b1 Cons.prems(4)]
  from Cons.prems(3)
  have b2: "(B + innings_weight P i data + input_weight P (Suc i) arr) * 18 \<le> 9007199254740992"
    by (simp add: algebra_simps)
  from Cons.prems(4) innings_weight_nonneg [of P i data]
  have "0 \<le> B + innings_weight P i data" by simp
  from Cons.IH [OF l inv1 b2 this] show ?case by (simp add: algebra_simps)
qed

lemma sum_numbers_exact:
  "\<bar>a\<bar> + sum_list (map abs ds) \<le> 9007199254740992 \<Longrightarrow>
     foldl num_add (Fin a) (map Fin ds) = Fin (a + sum_list ds)"
proof (induction ds arbitrary: a)
  case Nil
  show ?case by simp
next
  case (Cons d ds)
  from Cons.prems have b: "\<bar>a + d\<bar> \<le> 9007199254740992"
    "\<bar>a + d\<bar> + sum_list (map abs ds) \<le> 9007199254740992"
    using sum_list_abs [of ds] by simp_all
  from Cons.IH [OF b(2)] show ?case
    by (simp add: num_add_exact [OF b(1)] add.assoc del: num_add.simps)
qed

text \<open>
  C5, as stated, fails. On the bowling card with the counts \<^verbatim>\<open>"9007199254740992"\<close> for A and
  \<^verbatim>\<open>"1"\<close> twice for B, the team total of dot balls stays at \<open>2^53\<close>, since \<open>2^53 + 1\<close> is no
  double and rounds back, while the players hold \<open>2^53\<close> and 2, which add up to
  \<open>2^53 + 2\<close>. The trees differ likewise.
\<close>

theorem team_total_is_not_player_sum:
  "processMatchData example_platform ''2025-04-01T14:00:00.000Z'' [large_innings1] =
     Inr \<lparr>timestamp = ''2025-04-01T14:00:00.000Z'',
          teams = [new_team ''13'', large_team17]\<rparr>
   \<and> totalDotBallsBowled large_team17 = Fin 9007199254740992
   \<and> map dotBallsBowled (players large_team17) = [Fin 9007199254740992, Fin 2]
   \<and> sum_numbers (map dotBallsBowled (players large_team17)) = Fin 9007199254740994
   \<and> totalTreesPlanted large_team17 = Fin 162129586585337920
   \<and> map treesBowling (players large_team17) = [Fin 162129586585337856, Fin 36]
   \<and> sum_numbers (map treesBowling (players large_team17)) = Fin 162129586585337888"
proof -
  have 1: "processMatchData example_platform ''2025-04-01T14:00:00.000Z'' [large_innings1] =
     Inr \<lparr>timestamp = ''2025-04-01T14:00:00.000Z'',
          teams = [new_team ''13'', large_team17]\<rparr>"
    by code_simp
  have 2: "sum_numbers (map dotBallsBowled (players large_team17)) = Fin 9007199254740994"
    by code_simp
  have 3: "sum_numbers (map treesBowling (players large_team17)) = Fin 162129586585337888"
    by code_simp
  from 1 2 3 show ?thesis by (simp add: large_team17_def)
qed

text \<open>
  C5, amended. Weigh an input by the magnitudes of the dot-ball counts of all the bowler
  entries that \<^verbatim>\<open>processMatchData\<close> reads, added up. When 18 times this weight is at most
  \<open>2^53\<close>, every team of the \<^verbatim>\<open>MatchData\<close> returned has players whose counts are integers
  \<open>ds\<close> and whose trees are 18 times these, \<^verbatim>\<open>totalDotBallsBowled\<close> is the sum of \<open>ds\<close> and
  \<^verbatim>\<open>totalTreesPlanted\<close> is 18 times that sum: the totals of the team are the sums of the
  values of its players, as integers and as the doubles add up.
\<close>

theorem team_totals_are_player_sums:
  assumes "processMatchData P now arr = Inr md" and "t \<in> set (teams md)"
    and "input_weight P 0 arr * 18 \<le> 9007199254740992"
  shows "\<exists>ds. map dotBallsBowled (players t) = map Fin ds
     \<and> map treesBowling (players t) = map (\<lambda>d. Fin (d * 18)) ds
     \<and> totalDotBallsBowled t = Fin (sum_list ds)
     \<and> totalTreesPlanted t = Fin (sum_list (map (\<lambda>d. d * 18) ds))
     \<and> totalDotBallsBowled t = sum_numbers (map dotBallsBowled (players t))
     \<and> totalTreesPlanted t = sum_numbers (map treesBowling (players t))"
proof -
  from assms(1) obtain m where l: "innings_loop P 0 [] arr = Inr m" and md: "teams md = map snd m"
    by (auto simp: processMatchData_def bnd_Inr_iff)
  have "\<forall>t \<in> snd ` set []. \<exists>ds. exact_team t ds \<and> sum_list (map abs ds) \<le> 0" by simp
  from innings_loop_exact [OF l this] assms(3)
  have "\<forall>t \<in> snd ` set m. \<exists>ds. exact_team t ds
            \<and> sum_list (map abs ds) \<le> input_weight P 0 arr" by simp
  with md assms(2) obtain ds where ds: "exact_team t ds"
    "sum_list (map abs ds) \<le> input_weight P 0 arr"
    by auto
  have nn: "0 \<le> sum_list (map abs ds)" by (rule sum_list_nonneg) auto
  from ds(2) assms(3) have b: "sum_list (map abs ds) * 18 \<le> 9007199254740992" by simp
  with nn have b1: "\<bar>0\<bar> + sum_list (map abs ds) \<le> 9007199254740992" by simp
  from b have b2: "\<bar>0\<bar> + sum_list (map abs (map (\<lambda>d. d * 18) ds)) \<le> 9007199254740992"
    unfolding sum_abs_times by simp
  from ds(1) have e: "map dotBallsBowled (players t) = map Fin ds"
    "map treesBowling (players t) = map Fin (map (\<lambda>d. d * 18) ds)"
    "totalDotBallsBowled t = Fin (sum_list ds)"
    "totalTreesPlanted t = Fin (sum_list (map (\<lambda>d. d * 18) ds))"
    by (simp_all add: exact_team_def)
  have "sum_numbers (map dotBallsBowled (players t)) = Fin (sum_list ds)"
    unfolding sum_numbers_def e(1) using sum_numbers_exact [OF b1] by simp
  moreover have "sum_numbers (map treesBowling (players t)) = Fin (sum_list (map (\<lambda>d. d * 18) ds))"
    unfolding sum_numbers_def e(2) using sum_numbers_exact [OF b2] by simp
  ultimately show ?thesis using e by (intro exI [of _ ds]) simp
qed

lemma example_run:
  "processMatchData example_platform ''2025-04-01T14:00:00.000Z'' [example_innings1]
     = Inr example_result"
  by code_simp

theorem team_totals_are_player_sums_witness:
  "processMatchData example_platform ''2025-04-01T14:00:00.000Z'' [example_innings1]
     = Inr example_result
   \<and> example_team17 \<in> set (teams example_result)
   \<and> input_weight example_platform 0 [example_innings1] * 18 \<le> 9007199254740992
   \<and> totalDotBallsBowled example_team17 = sum_numbers (map dotBallsBowled (players example_team17))
   \<and> totalTreesPlanted example_team17 = sum_numbers (map treesBowling (players example_team17))
   \<and> totalDotBallsBowled example_team17 = Fin 8
   \<and> totalTreesPlanted example_team17 = Fin 144"
proof -
  have t: "example_team17 \<in> set (teams example_result)"
    by (simp add: example_result_def)
  have w: "input_weight example_platform 0 [example_innings1] = 8" by code_simp
  then have b: "input_weight example_platform 0 [example_innings1] * 18 \<le> 9007199254740992"
    by simp
  from team_totals_are_player_sums [OF example_run t b] example_run t b show ?thesis
    by (auto simp: example_team17_def)
qed

subsection \<open>One player per name\<close>

lemma names_distinct_primitive:
  "names_distinct ps \<Longrightarrow> distinct (filter primitive (map PlayerStats.name ps))"
  by (induction ps) (auto simp: strict_eq_refl)

lemma single_match:
  assumes "names_distinct ps" "\<exists>p \<in> set ps. strict_eq (PlayerStats.name p) n"
  shows "\<exists>p. filter (\<lambda>q. strict_eq (PlayerStats.name q) n) ps = [p]"
proof -
  let ?f = "filter (\<lambda>q. strict_eq (PlayerStats.name q) n) ps"
  from assms(2) have "?f \<noteq> []" by (auto simp: filter_empty_conv)
  moreover from assms(1) have "length ?f \<le> 1" by (rule names_distinct_filter)
  ultimately show ?thesis by (cases ?f) auto
qed

lemma credits_nonempty: "b \<in> set bs \<Longrightarrow> entry_named P n b \<Longrightarrow> credits P n bs \<noteq> []"
  by (auto simp: credits_def filter_empty_conv)

text \<open>
  C6. In every team of the output of \<^verbatim>\<open>processMatchData\<close> no two players have names that
  \<^verbatim>\<open>===\<close> holds of, so the names that are strings (or other primitives) are pairwise
  distinct. And when an entry of a bowling card resolves to the name \<open>n\<close>, the team has
  after the card exactly one player named \<open>n\<close>. Its dot balls are what the player of that
  name had before the card (nothing, when there was none) and the dot balls of all the
  entries of the card that resolve to \<open>n\<close>, summed up in the order of the card, and its
  trees are the same sum of the trees of these entries: entries of the same name are summed
  into a single \<^verbatim>\<open>PlayerStats\<close>. The sums are those of the doubles; they are the sums of the
  integers, with 18 trees per dot ball, when the magnitudes involved add up to \<open>2^53\<close> at
  most.
\<close>

theorem same_name_one_player:
  "(processMatchData P now arr = Inr md \<longrightarrow>
      (\<forall>t \<in> set (teams md). names_distinct (players t)
         \<and> distinct (filter primitive (map PlayerStats.name (players t)))))
   \<and> (bowlers_loop P bt m bs = Inr m' \<and> map_of m bt = Some t \<and> names_distinct (players t)
        \<and> b \<in> set bs \<and> entry_named P n b \<longrightarrow>
      (\<exists>t' p. map_of m' bt = Some t'
         \<and> filter (\<lambda>q. strict_eq (PlayerStats.name q) n) (players t') = [p]
         \<and> Some (dotBallsBowled p) =
             accumulate (player_value dotBallsBowled n (players t)) (credits P n bs)
         \<and> Some (treesBowling p) =
             accumulate (player_value treesBowling n (players t))
               (map (\<lambda>d. num_mul d TREES_PER_DOT_BALL) (credits P n bs))
         \<and> (\<forall>x ds. (player_value dotBallsBowled n (players t) = None \<and> x = 0
                      \<or> player_value dotBallsBowled n (players t) = Some (Fin x))
                   \<and> credits P n bs = map Fin ds
                   \<and> \<bar>x\<bar> + sum_list (map abs ds) \<le> 9007199254740992
                \<longrightarrow> dotBallsBowled p = Fin (x + sum_list ds))
         \<and> (\<forall>y ds. (player_value treesBowling n (players t) = None \<and> y = 0
                      \<or> player_value treesBowling n (players t) = Some (Fin y))
                   \<and> credits P n bs = map Fin ds
                   \<and> \<bar>y\<bar> + sum_list (map abs ds) * 18 \<le> 9007199254740992
                \<longrightarrow> treesBowling p = Fin (y + sum_list ds * 18))))"
proof (intro conjI impI ballI)
  fix t assume run: "processMatchData P now arr = Inr md" and t: "t \<in> set (teams md)"
  have "names_distinct (players t)"
  proof (rule processMatchData_inv [of "\<lambda>t. names_distinct (players t)", OF _ _ run t])
    show "names_distinct (players (new_team k))" for k by (simp add: new_team_def)
    show "names_distinct (players (step_team n d t))" if "names_distinct (players t)" for t n d
      using that by (simp add: step_team_def names_distinct_upsert)
  qed
  then show "names_distinct (players t)"
    and "distinct (filter primitive (map PlayerStats.name (players t)))"
    by (simp_all add: names_distinct_primitive)
next
  assume a: "bowlers_loop P bt m bs = Inr m' \<and> map_of m bt = Some t \<and> names_distinct (players t)
        \<and> b \<in> set bs \<and> entry_named P n b"
  from a bowlers_loop_players [of P bt m bs m' t] obtain t' where t': "map_of m' bt = Some t'"
    and dots: "player_value dotBallsBowled n (players t') =
              accumulate (player_value dotBallsBowled n (players t)) (credits P n bs)"
    and trees: "player_value treesBowling n (players t') =
              accumulate (player_value treesBowling n (players t))
                (map (\<lambda>d. num_mul d TREES_PER_DOT_BALL) (credits P n bs))"
    and dist: "names_distinct (players t')"
    and ex: "\<exists>p \<in> set (players t'). strict_eq (PlayerStats.name p) n"
    by blast
  from a credits_nonempty [of b bs P n] have ne: "credits P n bs \<noteq> []" by blast
  from single_match [OF dist ex] obtain p where
    p: "filter (\<lambda>q. strict_eq (PlayerStats.name q) n) (players t') = [p]" ..
  then have pv: "player_value dotBallsBowled n (players t') = Some (dotBallsBowled p)"
    "player_value treesBowling n (players t') = Some (treesBowling p)"
    by (simp_all add: player_value_def)
  have 1: "Some (dotBallsBowled p) =
             accumulate (player_value dotBallsBowled n (players t)) (credits P n bs)"
    using dots pv by simp
  have 2: "Some (treesBowling p) =
             accumulate (player_value treesBowling n (players t))
               (map (\<lambda>d. num_mul d TREES_PER_DOT_BALL) (credits P n bs))"
    using trees pv by simp
  have 3: "dotBallsBowled p = Fin (x + sum_list ds)"
    if h: "(player_value dotBallsBowled n (players t) = None \<and> x = 0
              \<or> player_value dotBallsBowled n (players t) = Some (Fin x))
           \<and> credits P n bs = map Fin ds
           \<and> \<bar>x\<bar> + sum_list (map abs ds) \<le> 9007199254740992" for x ds
  proof -
    from h ne have ds: "credits P n bs = map Fin ds" "ds \<noteq> []"
      and b: "\<bar>x\<bar> + sum_list (map abs ds) \<le> 9007199254740992" by auto
    from h consider "player_value dotBallsBowled n (players t) = None" "x = 0"
      | "player_value dotBallsBowled n (players t) = Some (Fin x)" by auto
    then have "accumulate (player_value dotBallsBowled n (players t)) (map Fin ds)
        = Some (Fin (x + sum_list ds))"
    proof cases
      case 1
      with b accumulate_None_exact [OF ds(2)] show ?thesis by simp
    next
      case 2
      with accumulate_Some_exact [OF b] show ?thesis by simp
    qed
    with 1 ds(1) show ?thesis by simp
  qed
  have 4: "treesBowling p = Fin (y + sum_list ds * 18)"
    if h: "(player_value treesBowling n (players t) = None \<and> y = 0
              \<or> player_value treesBowling n (players t) = Some (Fin y))
           \<and> credits P n bs = map Fin ds
           \<and> \<bar>y\<bar> + sum_list (map abs ds) * 18 \<le> 9007199254740992" for y ds
  proof -
    from h ne have ds: "credits P n bs = map Fin ds" "ds \<noteq> []"
      and b: "\<bar>y\<bar> + sum_list (map abs ds) * 18 \<le> 9007199254740992" by auto
    let ?ts = "map (\<lambda>d. d * 18) ds"
    from b have "sum_list (map abs ds) * 18 \<le> 9007199254740992" by simp
    then have tm: "map (\<lambda>d. num_mul d TREES_PER_DOT_BALL) (map Fin ds) = map Fin ?ts"
      by (rule trees_map_exact)
    from b have b': "\<bar>y\<bar> + sum_list (map abs ?ts) \<le> 9007199254740992"
      unfolding sum_abs_times .
    from ds(2) have ne': "?ts \<noteq> []" by simp
    from h consider "player_value treesBowling n (players t) = None" "y = 0"
      | "player_value treesBowling n (players t) = Some (Fin y)" by auto
    then have "accumulate (player_value treesBowling n (players t)) (map Fin ?ts)
        = Some (Fin (y + sum_list ?ts))"
    proof cases
      case 1
      with b' accumulate_None_exact [OF ne'] show ?thesis by simp
    next
      case 2
      with accumulate_Some_exact [OF b'] show ?thesis by simp
    qed
    with 2 show ?thesis unfolding ds(1) tm sum_times by simp
  qed
  from t' p 1 2 3 4 show "\<exists>t' p. map_of m' bt = Some t'
         \<and> filter (\<lambda>q. strict_eq (PlayerStats.name q) n) (players t') = [p]
         \<and> Some (dotBallsBowled p) =
             accumulate (player_value dotBallsBowled n (players t)) (credits P n bs)
         \<and> Some (treesBowling p) =
             accumulate (player_value treesBowling n (players t))
               (map (\<lambda>d. num_mul d TREES_PER_DOT_BALL) (credits P n bs))
         \<and> (\<forall>x ds. (player_value dotBallsBowled n (players t) = None \<and> x = 0
                      \<or> player_value dotBallsBowled n (players t) = Some (Fin x))
                   \<and> credits P n bs = map Fin ds
                   \<and> \<bar>x\<bar> + sum_list (map abs ds) \<le> 9007199254740992
                \<longrightarrow> dotBallsBowled p = Fin (x + sum_list ds))
         \<and> (\<forall>y ds. (player_value treesBowling n (players t) = None \<and> y = 0
                      \<or> player_value treesBowling n (players t) = Some (Fin y))
                   \<and> credits P n bs = map Fin ds
                   \<and> \<bar>y\<bar> + sum_list (map abs ds) * 18 \<le> 9007199254740992
                \<longrightarrow> treesBowling p = Fin (y + sum_list ds * 18))"
    by blast
qed

theorem same_name_one_player_witness:
  "processMatchData example_platform ''2025-04-01T14:00:00.000Z'' [example_innings1]
     = Inr example_result
   \<and> names_distinct (players example_team17)
   \<and> bowlers_loop example_platform ''17'' [(''17'', new_team ''17'')]
        [example_bowler, example_bowler3]
        = Inr [(''17'', \<lparr>TeamStats.name = ''17'', totalDotBallsBowled = Fin 8,
             totalTreesPlanted = Fin 144,
             players = [\<lparr>PlayerStats.name = JStr ''X'', dotBallsBowled = Fin 8,
                         dotBallsPlayed = Fin 0, treesBowling = Fin 144\<rparr>]\<rparr>)]
   \<and> entry_named example_platform (JStr ''X'') example_bowler3
   \<and> credits example_platform (JStr ''X'') [example_bowler, example_bowler3] = [Fin 5, Fin 3]
   \<and> (\<exists>t' p. map_of [(''17'', \<lparr>TeamStats.name = ''17'', totalDotBallsBowled = Fin 8,
                      totalTreesPlanted = Fin 144,
                      players = [\<lparr>PlayerStats.name = JStr ''X'', dotBallsBowled = Fin 8,
                                  dotBallsPlayed = Fin 0, treesBowling = Fin 144\<rparr>]\<rparr>)] ''17''
                 = Some t'
         \<and> filter (\<lambda>q. strict_eq (PlayerStats.name q) (JStr ''X'')) (players t') = [p]
         \<and> dotBallsBowled p = Fin 8 \<and> treesBowling p = Fin 144)"
proof -
  let ?m = "[(''17'', new_team ''17'')]"
  let ?bs = "[example_bowler, example_bowler3]"
  let ?m' = "[(''17'', \<lparr>TeamStats.name = ''17'', totalDotBallsBowled = Fin 8,
             totalTreesPlanted = Fin 144,
             players = [\<lparr>PlayerStats.name = JStr ''X'', dotBallsBowled = Fin 8,
                         dotBallsPlayed = Fin 0, treesBowling = Fin 144\<rparr>]\<rparr>)]"
  have h0: "example_team17 \<in> set (teams example_result)" by (simp add: example_result_def)
  have h1: "bowlers_loop example_platform ''17'' ?m ?bs = Inr ?m'" by code_simp
  have h2: "map_of ?m ''17'' = Some (new_team ''17'')" by simp
  have h3: "names_distinct (players (new_team ''17''))" by (simp add: new_team_def)
  have h4: "example_bowler3 \<in> set ?bs" by simp
  have h5: "entry_named example_platform (JStr ''X'') example_bowler3" by code_simp
  have c: "credits example_platform (JStr ''X'') ?bs = map Fin [5, 3]" by code_simp
  have z: "player_value f (JStr ''X'') (players (new_team ''17'')) = None" for f
    by (simp add: player_value_def new_team_def)
  note inst = same_name_one_player [of example_platform "''2025-04-01T14:00:00.000Z''"
      "[example_innings1]" example_result "''17''" ?m ?bs ?m' "new_team ''17''" example_bowler3
      "JStr ''X''"]
  from inst example_run h0 have a: "names_distinct (players example_team17)" by blast
  from inst h1 h2 h3 h4 h5 obtain t' p where tp: "map_of ?m' ''17'' = Some t'"
    "filter (\<lambda>q. strict_eq (PlayerStats.name q) (JStr ''X'')) (players t') = [p]"
    and d: "\<forall>x ds. (player_value dotBallsBowled (JStr ''X'') (players (new_team ''17'')) = None
                       \<and> x = 0
                      \<or> player_value dotBallsBowled (JStr ''X'') (players (new_team ''17''))
                          = Some (Fin x))
                   \<and> credits example_platform (JStr ''X'') ?bs = map Fin ds
                   \<and> \<bar>x\<bar> + sum_list (map abs ds) \<le> 9007199254740992
                \<longrightarrow> dotBallsBowled p = Fin (x + sum_list ds)"
    and t: "\<forall>y ds. (player_value treesBowling (JStr ''X'') (players (new_team ''17'')) = None
                       \<and> y = 0
                      \<or> player_value treesBowling (JStr ''X'') (players (new_team ''17''))
                          = Some (Fin y))
                   \<and> credits example_platform (JStr ''X'') ?bs = map Fin ds
                   \<and> \<bar>y\<bar> + sum_list (map abs ds) * 18 \<le> 9007199254740992
                \<longrightarrow> treesBowling p = Fin (y + sum_list ds * 18)"
    by blast
  from d [rule_format, of 0 "[5, 3]"] z c have d8: "dotBallsBowled p = Fin 8" by simp
  from t [rule_format, of 0 "[5, 3]"] z c have t144: "treesBowling p = Fin 144" by simp
  from tp d8 t144 have b: "\<exists>t' p. map_of ?m' ''17'' = Some t'
         \<and> filter (\<lambda>q. strict_eq (PlayerStats.name q) (JStr ''X'')) (players t') = [p]
         \<and> dotBallsBowled p = Fin 8 \<and> treesBowling p = Fin 144"
    by blast
  from c have c': "credits example_platform (JStr ''X'') ?bs = [Fin 5, Fin 3]" by simp
  from a b example_run h1 h5 c' show ?thesis by blast
qed

subsection \<open>Dot-ball fields that are not numbers\<close>

lemma ToString_printable:
  "(\<exists>s. ToString P v = Inr s) \<longleftrightarrow> printable v"
  "(\<exists>s. join P xs = Inr s) \<longleftrightarrow> printable_list xs"
  by (induction P v and P xs rule: ToString_join.induct) (auto simp: bnd_Inr_iff)

text \<open>
  C7, as stated, fails. The entry \<^verbatim>\<open>{"PlayerShortName": "X", "DotBalls": {"toString": 0}}\<close> has
  a \<^verbatim>\<open>DotBalls\<close> field that is not a number, and \<^verbatim>\<open>parseInt\<close> throws on it: the conversion of
  the object to a string finds its own \<^verbatim>\<open>toString\<close>, which is not callable, then
  \<^verbatim>\<open>Object.prototype.valueOf\<close>, which returns the object itself, and gives up with a
  \<^verbatim>\<open>TypeError\<close>. The throw leaves \<^verbatim>\<open>processMatchData\<close>.
\<close>

theorem odd_dot_balls_throw:
  "get_prop odd_bowler ''DotBalls'' = Inr (JObj [(''toString'', JNum 0)])
   \<and> dotBalls_of example_platform odd_bowler = Inl TypeError
   \<and> processMatchData example_platform ''2025-04-01T14:00:00.000Z'' [odd_innings1]
       = Inl TypeError"
  by code_simp

text \<open>
  C7, amended. Take a bowler entry other than \<^verbatim>\<open>null\<close> whose name resolves. When its
  \<^verbatim>\<open>DotBalls\<close> field is absent, or has a string conversion in which \<^verbatim>\<open>parseInt\<close> finds no
  number, the entry counts for 0 dot balls, the step does not throw, the totals of the
  bowling team are unchanged, and the players are unchanged or one player with 0 dot
  balls and 0 trees is appended. By \<open>ToString_printable\<close> the string conversion exists
  for every value but an object with an own \<^verbatim>\<open>toString\<close> property and an array that holds
  one.
\<close>

theorem non_numeric_dot_balls_count_zero:
  assumes field: "get_prop bowler ''DotBalls'' = Inr v"
    and nan: "v = JUndefined \<or> (\<exists>s. ToString P v = Inr s \<and> parseInt_string s = None)"
    and name: "bowlerName_of P bowler = Inr n"
    and team: "map_of m bt = Some team"
  shows "dotBalls_of P bowler = Inr (Fin 0)
     \<and> (\<exists>team'. bowler_step P bt m bowler = Inr (map_set bt team' m)
          \<and> map_of (map_set bt team' m) bt = Some team'
          \<and> totalDotBallsBowled team' = totalDotBallsBowled team
          \<and> totalTreesPlanted team' = totalTreesPlanted team
          \<and> (players team' = players team
             \<or> players team' =
                 players team @ [\<lparr>PlayerStats.name = n, dotBallsBowled = Fin 0,
                                  dotBallsPlayed = Fin 0, treesBowling = Fin 0\<rparr>]))"
proof -
  have u: "parseInt_string ''undefined'' = None" by code_simp
  from nan have "parseInt P v = Inr NaN"
    by (auto simp: parseInt_def u)
  with field have d: "dotBalls_of P bowler = Inr (Fin 0)"
    by (simp add: dotBalls_of_def)
  let ?team' = "step_team n (Fin 0) team"
  have run: "bowler_step P bt m bowler = Inr (map_set bt ?team' m)"
    using name d team by (rule bowler_step_run)
  have "players ?team' = upsert_player n (Fin 0) (Fin 0) (players team)"
    by (simp add: step_team_def trees_zero del: num_mul.simps)
  with upsert_player_cases [of "players team" n "Fin 0" "Fin 0"]
  have "players ?team' = players team
      \<or> players ?team' =
          players team @ [\<lparr>PlayerStats.name = n, dotBallsBowled = Fin 0, dotBallsPlayed = Fin 0,
                           treesBowling = Fin 0\<rparr>]"
    by (auto simp: num_add_zero)
  moreover have "totalDotBallsBowled ?team' = totalDotBallsBowled team"
    "totalTreesPlanted ?team' = totalTreesPlanted team"
    by (simp_all add: step_team_def trees_zero num_add_zero del: num_mul.simps)
  moreover have "map_of (map_set bt ?team' m) bt = Some ?team'"
    by (simp add: map_of_map_set)
  ultimately show ?thesis using d run by blast
qed

theorem non_numeric_dot_balls_count_zero_witness:
  "get_prop blank_bowler ''DotBalls'' = Inr (JStr ''n/a'')
   \<and> ToString example_platform (JStr ''n/a'') = Inr ''n/a'' \<and> parseInt_string ''n/a'' = None
   \<and> bowlerName_of example_platform blank_bowler = Inr (JStr ''Y'')
   \<and> dotBalls_of example_platform blank_bowler = Inr (Fin 0)
   \<and> (\<exists>team'. bowler_step example_platform ''17'' [(''17'', example_team17)] blank_bowler =
                 Inr (map_set ''17'' team' [(''17'', example_team17)])
        \<and> totalDotBallsBowled team' = Fin 8 \<and> totalTreesPlanted team' = Fin 144)"
proof -
  have h1: "get_prop blank_bowler ''DotBalls'' = Inr (JStr ''n/a'')" by code_simp
  have h2: "ToString example_platform (JStr ''n/a'') = Inr ''n/a''" by simp
  have h3: "parseInt_string ''n/a'' = None" by code_simp
  have h4: "bowlerName_of example_platform blank_bowler = Inr (JStr ''Y'')" by code_simp
  have h5: "map_of [(''17'', example_team17)] ''17'' = Some example_team17" by simp
  from h2 h3 have nan: "JStr ''n/a'' = JUndefined
      \<or> (\<exists>s. ToString example_platform (JStr ''n/a'') = Inr s \<and> parseInt_string s = None)"
    by blast
  from non_numeric_dot_balls_count_zero [OF h1 nan h4 h5] h1 h2 h3 h4
  show ?thesis by (auto simp: example_team17_def)
qed

subsection \<open>Determinism\<close>

lemma ToString_platform:
  "Number_toString P' = Number_toString P \<Longrightarrow> ToString P' v = ToString P v"
  "Number_toString P' = Number_toString P \<Longrightarrow> join P' xs = join P xs"
  by (induction P v and P xs rule: ToString_join.induct)
    (auto simp: bnd_def split: sum.splits)

lemma bowler_step_platform:
  assumes "Number_toString P' = Number_toString P"
  shows "bowler_step P' bt m b = bowler_step P bt m b"
  by (simp add: bowler_step_def bowlerName_of_def dotBalls_of_def parseInt_def
      ToString_platform [OF assms] cong: if_cong)

lemma bowlers_loop_platform:
  assumes "Number_toString P' = Number_toString P"
  shows "bowlers_loop P' bt m bs = bowlers_loop P bt m bs"
  by (induction bs arbitrary: m) (simp_all add: bowler_step_platform [OF assms])

lemma innings_step_platform:
  assumes "Number_toString P' = Number_toString P"
  shows "innings_step P' i m data = innings_step P i m data"
  by (simp add: innings_step_def toString_method_def ToString_platform [OF assms]
      bowlers_loop_platform [OF assms] cong: if_cong)

lemma innings_loop_platform:
  assumes "Number_toString P' = Number_toString P"
  shows "innings_loop P' i m arr = innings_loop P i m arr"
  by (induction arr arbitrary: i m) (simp_all add: innings_step_platform [OF assms])

text \<open>
  C10. \<^verbatim>\<open>processMatchData\<close> starts from an empty team map at every call, and what it
  returns is a function of the list of innings and of the clock reading. Two runs on the
  same list, at whatever times, end in the same error or in the same teams with the same
  players and totals; the clock reading goes to the \<^verbatim>\<open>timestamp\<close> field and nowhere else.
  Of the platform only the printing of numbers is used: the runs may differ in what the
  network, the parser, the clock and the database do.
\<close>

theorem aggregation_ignores_clock:
  "map_sum id teams (processMatchData P now arr)
     = map_sum id teams
         (processMatchData
            (P\<lparr>fetch := f, JSON_parse := j, Date_now := c, toISOString := i, sql_date := s,
               sql_number := q, sql_sum := r\<rparr>) now' arr)
   \<and> map_sum id teams (processMatchData P now arr)
       = map_sum id teams (processMatchData P now' arr)
   \<and> map_sum id timestamp (processMatchData P now arr)
       = map_sum id (\<lambda>md. now) (processMatchData P now arr)"
proof -
  let ?P' = "P\<lparr>fetch := f, JSON_parse := j, Date_now := c, toISOString := i, sql_date := s,
               sql_number := q, sql_sum := r\<rparr>"
  have "Number_toString ?P' = Number_toString P" by simp
  then have "innings_loop ?P' 0 [] arr = innings_loop P 0 [] arr"
    by (rule innings_loop_platform)
  then show ?thesis
    by (cases "innings_loop P 0 [] arr") (simp_all add: processMatchData_def)
qed

section \<open>Properties of the fetcher\<close>

subsection \<open>The pattern\<close>

text \<open>The backtracking matcher finds a match exactly when the text has the shape of the
  envelope.\<close>

lemma capture_from_sound:
  "capture_from r = Some x \<Longrightarrow>
     \<exists>rest. r = x @ '')'' @ rest \<and> \<not> list_ex is_line_terminator x \<and> tail_ok rest"
proof (induction r arbitrary: x)
  case Nil
  then show ?case by simp
next
  case (Cons c r)
  show ?case
  proof (cases "if is_line_terminator c then None else capture_from r")
    case None
    with Cons.prems have "x = []" "c = CHR '')''" "tail_ok r"
      by (auto split: if_splits)
    then show ?thesis by simp
  next
    case (Some y)
    then have nl: "\<not> is_line_terminator c" and y: "capture_from r = Some y"
      by (auto split: if_splits)
    from Some Cons.prems have x: "x = c # y" by simp
    from Cons.IH [OF y] obtain rest where
      "r = y @ '')'' @ rest" "\<not> list_ex is_line_terminator y" "tail_ok rest"
      by blast
    with x nl show ?thesis by simp
  qed
qed

lemma capture_from_complete:
  "\<not> list_ex is_line_terminator x \<Longrightarrow> tail_ok rest \<Longrightarrow> capture_from (x @ '')'' @ rest) \<noteq> None"
proof (induction x)
  case Nil
  then show ?case by (auto split: option.splits)
next
  case (Cons c x)
  then show ?case by (auto split: option.splits)
qed

lemma jsonp_match_sound:
  "jsonp_match s = Some x \<Longrightarrow>
     \<exists>token rest. s = token @ ''('' @ x @ '')'' @ rest
        \<and> \<not> list_ex is_line_terminator token \<and> \<not> list_ex is_line_terminator x \<and> tail_ok rest"
proof (induction s)
  case Nil
  then show ?case by simp
next
  case (Cons c s)
  show ?case
  proof (cases "if c = CHR ''('' then capture_from s else None")
    case (Some y)
    with Cons.prems have c: "c = CHR ''(''" and y: "capture_from s = Some x"
      by (auto split: if_splits)
    from capture_from_sound [OF y] obtain rest where
      "s = x @ '')'' @ rest" "\<not> list_ex is_line_terminator x" "tail_ok rest"
      by blast
    with c have "c # s = [] @ ''('' @ x @ '')'' @ rest
        \<and> \<not> list_ex is_line_terminator [] \<and> \<not> list_ex is_line_terminator x \<and> tail_ok rest"
      by simp
    then show ?thesis by blast
  next
    case None
    with Cons.prems have nl: "\<not> is_line_terminator c" and m: "jsonp_match s = Some x"
      by (auto split: if_splits)
    from Cons.IH [OF m] obtain token rest where
      "s = token @ ''('' @ x @ '')'' @ rest" "\<not> list_ex is_line_terminator token"
      "\<not> list_ex is_line_terminator x" "tail_ok rest"
      by blast
    with nl have "c # s = (c # token) @ ''('' @ x @ '')'' @ rest
        \<and> \<not> list_ex is_line_terminator (c # token) \<and> \<not> list_ex is_line_terminator x
        \<and> tail_ok rest"
      by simp
    then show ?thesis by blast
  qed
qed

lemma jsonp_match_complete:
  "\<not> list_ex is_line_terminator token \<Longrightarrow> capture_from r \<noteq> None \<Longrightarrow>
     jsonp_match (token @ ''('' @ r) \<noteq> None"
  by (induction token) (auto split: option.splits)

lemma jsonp_match_None_iff: "jsonp_match text = None \<longleftrightarrow> \<not> envelope_shape text"
proof
  assume n: "jsonp_match text = None"
  show "\<not> envelope_shape text"
  proof
    assume "envelope_shape text"
    then obtain token payload rest where
      t: "text = token @ ''('' @ payload @ '')'' @ rest"
      and c: "\<not> list_ex is_line_terminator token" "\<not> list_ex is_line_terminator payload"
        "tail_ok rest"
      unfolding envelope_shape_def by blast
    from c(2,3) have "capture_from (payload @ '')'' @ rest) \<noteq> None"
      by (rule capture_from_complete)
    with c(1) have "jsonp_match (token @ ''('' @ (payload @ '')'' @ rest)) \<noteq> None"
      by (rule jsonp_match_complete)
    with t n show False by simp
  qed
next
  assume e: "\<not> envelope_shape text"
  show "jsonp_match text = None"
  proof (rule ccontr)
    assume "jsonp_match text \<noteq> None"
    then obtain x where "jsonp_match text = Some x" by blast
    from jsonp_match_sound [OF this] have "envelope_shape text"
      unfolding envelope_shape_def by blast
    with e show False by contradiction
  qed
qed


lemma decode_jsonp_null_iff:
  "decode_jsonp parse text = JNull \<longleftrightarrow>
     \<not> envelope_shape text
     \<or> (\<exists>payload. jsonp_match text = Some payload
           \<and> (payload = [] \<or> parse payload = None \<or> parse payload = Some JNull))"
  by (auto simp: decode_jsonp_def jsonp_match_None_iff [symmetric] split: option.splits)

lemma fetchMatchJson_eq:
  "fetchMatchJson P matchId =
     (let valid = filter (\<lambda>r. r \<noteq> JNull) (map (fetch_url P) (buildJsonUrl matchId))
      in if valid = [] then Inl (Error (''Failed to fetch any valid data for match '' @ matchId))
         else Inr valid)"
  by (simp add: fetchMatchJson_def Let_def)

subsection \<open>Bodies that are not an envelope\<close>

text \<open>
  C8. A response body that does not have the shape \<^verbatim>\<open>token(...)\<close> or \<^verbatim>\<open>token(...);\<close> decodes to
  \<^verbatim>\<open>null\<close>, whatever \<^verbatim>\<open>JSON.parse\<close> is; the callback for its URL returns \<^verbatim>\<open>null\<close> and throws
  nothing, and \<^verbatim>\<open>fetchMatchJson\<close> then depends on the other URL alone: it returns the other
  payload when there is one and throws its own error when the other is \<^verbatim>\<open>null\<close> too.
\<close>

theorem bad_envelope_gives_null:
  assumes "\<not> envelope_shape text"
  shows "decode_jsonp (JSON_parse P) text = JNull
     \<and> (fetch P url = Response ok (Some text) \<longrightarrow> fetch_url P url = JNull)
     \<and> (fetch P (buildJsonUrl matchId ! 0) = Response ok (Some text) \<longrightarrow>
          fetchMatchJson P matchId =
            (if fetch_url P (buildJsonUrl matchId ! 1) = JNull
             then Inl (Error (''Failed to fetch any valid data for match '' @ matchId))
             else Inr [fetch_url P (buildJsonUrl matchId ! 1)]))
     \<and> (fetch P (buildJsonUrl matchId ! 1) = Response ok (Some text) \<longrightarrow>
          fetchMatchJson P matchId =
            (if fetch_url P (buildJsonUrl matchId ! 0) = JNull
             then Inl (Error (''Failed to fetch any valid data for match '' @ matchId))
             else Inr [fetch_url P (buildJsonUrl matchId ! 0)]))"
proof -
  from assms have d: "decode_jsonp (JSON_parse P) text = JNull"
    by (simp add: decode_jsonp_null_iff)
  then have u: "fetch_url P u = JNull" if "fetch P u = Response ok (Some text)" for u
    using that by (simp add: fetch_url_def)
  define u0 where "u0 = buildJsonUrl matchId ! 0"
  define u1 where "u1 = buildJsonUrl matchId ! 1"
  have two: "buildJsonUrl matchId = [u0, u1]"
    by (simp add: u0_def u1_def buildJsonUrl_def)
  show ?thesis
    unfolding u0_def [symmetric] u1_def [symmetric]
    using d u by (auto simp: fetchMatchJson_eq two)
qed

theorem bad_envelope_gives_null_witness:
  "\<not> envelope_shape ''<html>Access Denied</html>''
   \<and> decode_jsonp (JSON_parse example_platform) ''<html>Access Denied</html>'' = JNull
   \<and> fetchMatchJson example_platform ''1833'' = Inr [example_innings1]"
proof -
  have "jsonp_match ''<html>Access Denied</html>'' = None" by code_simp
  then have h: "\<not> envelope_shape ''<html>Access Denied</html>''"
    by (rule iffD1 [OF jsonp_match_None_iff])
  have f2: "fetch example_platform (buildJsonUrl ''1833'' ! 1)
      = Response True (Some ''<html>Access Denied</html>'')"
    by code_simp
  have f1: "fetch_url example_platform (buildJsonUrl ''1833'' ! 0) = example_innings1"
    by code_simp
  have ne: "example_innings1 \<noteq> JNull" by (simp add: example_innings1_def)
  from bad_envelope_gives_null [OF h, of example_platform _ _ "''1833''"] f2 f1 ne h
  show ?thesis by simp
qed

subsection \<open>When the fetch throws\<close>






lemma u1833: "buildJsonUrl ''1833'' =
    [''https://ipl-stats-sports-mechanic.s3.ap-south-1.amazonaws.com/ipl/feeds/1833-Innings1.js'',
     ''https://ipl-stats-sports-mechanic.s3.ap-south-1.amazonaws.com/ipl/feeds/1833-Innings2.js'']"
  by (simp add: buildJsonUrl_def)





subsection \<open>The second innings alone\<close>

text \<open>
  C3. When the feed of the first innings yields no data and the feed of the second
  yields a payload, one that holds no \<^verbatim>\<open>Innings1\<close> section, \<^verbatim>\<open>fetchMatchJson\<close> returns the
  one-element list of that payload; \<^verbatim>\<open>processMatchData\<close> reads it at index 0 under the key
  \<^verbatim>\<open>Innings1\<close>, finds nothing, skips it and returns a \<^verbatim>\<open>MatchData\<close> with no team: what the
  payload holds under \<^verbatim>\<open>Innings2\<close> is not read.
\<close>

theorem lone_innings2_is_discarded:
  assumes first: "fetch_url P (buildJsonUrl matchId ! 0) = JNull"
    and second: "fetch_url P (buildJsonUrl matchId ! 1) = payload" "payload \<noteq> JNull"
    and nosec: "get_prop payload ''Innings1'' = Inr v" "\<not> truthy v"
  shows "fetchMatchJson P matchId = Inr [payload]
     \<and> innings_step P 0 [] payload = Inr []
     \<and> processMatchData P now [payload] = Inr \<lparr>timestamp = now, teams = []\<rparr>"
proof -
  define u0 where "u0 = buildJsonUrl matchId ! 0"
  define u1 where "u1 = buildJsonUrl matchId ! 1"
  have two: "buildJsonUrl matchId = [u0, u1]"
    by (simp add: u0_def u1_def buildJsonUrl_def)
  have "fetchMatchJson P matchId = Inr [payload]"
    using first second unfolding u0_def [symmetric] u1_def [symmetric]
    by (simp add: fetchMatchJson_eq two)
  moreover have s: "innings_step P 0 [] payload = Inr []"
    using nosec by (simp add: innings_step_def)
  moreover have "processMatchData P now [payload] = Inr \<lparr>timestamp = now, teams = []\<rparr>"
    by (simp add: processMatchData_def s)
  ultimately show ?thesis by blast
qed

theorem lone_innings2_is_discarded_witness:
  "fetch_url example_platform (buildJsonUrl ''1834'' ! 0) = JNull
   \<and> fetch_url example_platform (buildJsonUrl ''1834'' ! 1) = example_innings2
   \<and> example_innings2 \<noteq> JNull
   \<and> get_prop example_innings2 ''Innings1'' = Inr JUndefined \<and> \<not> truthy JUndefined
   \<and> fetchMatchJson example_platform ''1834'' = Inr [example_innings2]
   \<and> processMatchData example_platform ''2025-04-01T14:00:00.000Z'' [example_innings2]
        = Inr \<lparr>timestamp = ''2025-04-01T14:00:00.000Z'', teams = []\<rparr>"
proof -
  have h1: "fetch_url example_platform (buildJsonUrl ''1834'' ! 0) = JNull" by code_simp
  have h2: "fetch_url example_platform (buildJsonUrl ''1834'' ! 1) = example_innings2"
    by code_simp
  have h3: "example_innings2 \<noteq> JNull" by (simp add: example_innings2_def)
  have h4: "get_prop example_innings2 ''Innings1'' = Inr JUndefined" by code_simp
  have h5: "\<not> truthy JUndefined" by simp
  from lone_innings2_is_discarded [OF h1 h2 h3 h4 h5] h1 h2 h3 h4 h5
  show ?thesis by blast
qed

section \<open>Properties of the store\<close>

subsection \<open>Team names of an aggregate\<close>

lemma map_fst_map_set:
  "map fst (map_set k v m) = (if k \<in> fst ` set m then map fst m else map fst m @ [k])"
  by (induction m) force+

lemma keyed_map_set:
  assumes "keyed_by_name m" "TeamStats.name v = k"
  shows "keyed_by_name (map_set k v m)"
proof -
  from assms(1) have "distinct (map fst (map_set k v m))"
    by (simp add: keyed_by_name_def map_fst_map_set)
  moreover have "TeamStats.name t = k'" if "(k', t) \<in> set (map_set k v m)" for k' t
    using that set_map_set [of k v m] assms by (auto simp: keyed_by_name_def)
  ultimately show ?thesis by (auto simp: keyed_by_name_def)
qed

lemma keyed_ensure_team: "keyed_by_name m \<Longrightarrow> keyed_by_name (ensure_team k m)"
  by (simp add: ensure_team_def keyed_map_set new_team_def)

lemma keyed_bowler_step:
  assumes "bowler_step P bt m b = Inr m'" "keyed_by_name m"
  shows "keyed_by_name m'"
proof -
  from assms(1) obtain n d team where *: "map_of m bt = Some team"
    "m' = map_set bt (step_team n d team) m"
    by (rule bowler_step_cases)
  from *(1) have "(bt, team) \<in> set m" by (rule map_of_SomeD)
  with assms(2) have "TeamStats.name team = bt" by (auto simp: keyed_by_name_def)
  then have "TeamStats.name (step_team n d team) = bt" by (simp add: step_team_def)
  with assms(2) show ?thesis unfolding *(2) by (rule keyed_map_set)
qed

lemma keyed_bowlers_loop:
  "bowlers_loop P bt m bs = Inr m' \<Longrightarrow> keyed_by_name m \<Longrightarrow> keyed_by_name m'"
proof (induction bs arbitrary: m)
  case Nil
  then show ?case by simp
next
  case (Cons b bs)
  from Cons.prems(1) obtain m1 where s: "bowler_step P bt m b = Inr m1"
    and l: "bowlers_loop P bt m1 bs = Inr m'"
    by (auto simp: bnd_Inr_iff)
  from keyed_bowler_step [OF s Cons.prems(2)] Cons.IH [OF l] show ?case by blast
qed

lemma keyed_innings_step:
  assumes "innings_step P i m data = Inr m'" "keyed_by_name m"
  shows "keyed_by_name m'"
  using assms(1)
proof (cases rule: innings_step_cases)
  case 1
  with assms(2) show ?thesis by simp
next
  case (2 inningsData bat bowl bs)
  from assms(2) have "keyed_by_name (ensure_team bowl (ensure_team bat m))"
    by (intro keyed_ensure_team)
  with 2(4) show ?thesis by (rule keyed_bowlers_loop)
qed

lemma keyed_innings_loop:
  "innings_loop P i m arr = Inr m' \<Longrightarrow> keyed_by_name m \<Longrightarrow> keyed_by_name m'"
proof (induction arr arbitrary: i m)
  case Nil
  then show ?case by simp
next
  case (Cons data arr)
  from Cons.prems(1) obtain m1 where s: "innings_step P i m data = Inr m1"
    and l: "innings_loop P (Suc i) m1 arr = Inr m'"
    by (auto simp: bnd_Inr_iff)
  from keyed_innings_step [OF s Cons.prems(2)] Cons.IH [OF l] show ?case by blast
qed

lemma processMatchData_team_names_distinct:
  assumes "processMatchData P now arr = Inr md"
  shows "distinct (map TeamStats.name (teams md))"
proof -
  from assms obtain m where l: "innings_loop P 0 [] arr = Inr m" and md: "teams md = map snd m"
    by (auto simp: processMatchData_def bnd_Inr_iff)
  have "keyed_by_name []" by (simp add: keyed_by_name_def)
  with l have k: "keyed_by_name m" by (rule keyed_innings_loop)
  then have "map TeamStats.name (map snd m) = map fst m"
    by (auto simp: keyed_by_name_def)
  moreover from k have "distinct (map fst m)" by (simp add: keyed_by_name_def)
  ultimately show ?thesis unfolding md by (simp only:)
qed

subsection \<open>The summary row\<close>

lemma store_players_summary:
  "TreePlantingSummary (snd (store_players P matchId teamId ps db)) = TreePlantingSummary db"
proof (induction ps arbitrary: db)
  case Nil
  show ?case by simp
next
  case (Cons p ps)
  show ?case
    by (cases "PlayerStats.name p") (simp_all add: Let_def Cons.IH)
qed

lemma store_players_ok:
  "\<forall>p \<in> set ps. \<exists>s. PlayerStats.name p = JStr s \<Longrightarrow>
     fst (store_players P matchId teamId ps db) = None"
proof (induction ps arbitrary: db)
  case Nil
  show ?case by simp
next
  case (Cons p ps)
  from Cons.prems obtain s where "PlayerStats.name p = JStr s" by auto
  with Cons show ?case by (simp add: Let_def)
qed

lemma update_summary_row:
  "TreePlantingSummary (update_summary P teamId v ts db) T =
     (if T = teamId then Some (upserted_total P db teamId v, ts) else TreePlantingSummary db T)"
  by (simp add: update_summary_def upserted_total_def split: option.splits)

lemma teamName_of_own:
  "teamId \<notin> set Object_prototype_names \<Longrightarrow> \<exists>teamName. teamName_of teamId = Some teamName"
  by (simp add: teamName_of_def split: option.splits)

lemma store_team_step:
  assumes "\<forall>p \<in> set (players team). \<exists>s. PlayerStats.name p = JStr s"
    and "TeamStats.name team \<notin> set Object_prototype_names"
  shows "\<exists>db'. store_teams P matchId ts (team # rest) db = store_teams P matchId ts rest db'
     \<and> (\<forall>T. TreePlantingSummary db' T =
           (if T = TeamStats.name team
            then Some (upserted_total P db (TeamStats.name team)
                         (sql_of P (totalTreesPlanted team)), ts)
            else TreePlantingSummary db T))"
proof -
  let ?teamId = "TeamStats.name team"
  from teamName_of_own [OF assms(2)] obtain teamName where
    tn: "teamName_of ?teamId = Some teamName" ..
  let ?db1 = "db\<lparr>Teams :=
            (if Teams db ?teamId = None then (Teams db)(?teamId \<mapsto> teamName) else Teams db)\<rparr>"
  let ?db2 = "?db1\<lparr>TeamMatchPerformance :=
            (TeamMatchPerformance ?db1)((matchId, ?teamId) \<mapsto>
               (sql_of P (totalDotBallsBowled team), sql_of P (totalTreesPlanted team)))\<rparr>"
  let ?db3 = "update_summary P ?teamId (sql_of P (totalTreesPlanted team)) ts ?db2"
  let ?r = "store_players P matchId ?teamId (players team) ?db3"
  have ok: "fst ?r = None" using assms(1) by (rule store_players_ok)
  then obtain db4 where r: "?r = (None, db4)" by (cases ?r) auto
  have "TreePlantingSummary (snd ?r) = TreePlantingSummary ?db3"
    by (rule store_players_summary)
  then have s: "TreePlantingSummary db4 = TreePlantingSummary ?db3"
    unfolding r by simp
  have t2: "upserted_total P ?db2 T v = upserted_total P db T v" for T v
    by (simp add: upserted_total_def)
  have "store_teams P matchId ts (team # rest) db = store_teams P matchId ts rest db4"
    by (simp only: store_teams.simps Let_def tn r prod.case option.case)
  moreover have "TreePlantingSummary db4 T =
           (if T = ?teamId
            then Some (upserted_total P db ?teamId (sql_of P (totalTreesPlanted team)), ts)
            else TreePlantingSummary db T)" for T
    unfolding s update_summary_row t2 by simp
  ultimately show ?thesis by blast
qed

lemma store_teams_other:
  assumes "\<forall>t \<in> set tms. \<forall>p \<in> set (players t). \<exists>s. PlayerStats.name p = JStr s"
    and "\<forall>t \<in> set tms. TeamStats.name t \<notin> set Object_prototype_names"
    and "T \<notin> TeamStats.name ` set tms"
  shows "fst (store_teams P matchId ts tms db) = None
     \<and> TreePlantingSummary (snd (store_teams P matchId ts tms db)) T = TreePlantingSummary db T"
  using assms
proof (induction tms arbitrary: db)
  case Nil
  show ?case by simp
next
  case (Cons team rest)
  from Cons.prems have a: "\<forall>p \<in> set (players team). \<exists>s. PlayerStats.name p = JStr s"
    "TeamStats.name team \<notin> set Object_prototype_names" "T \<noteq> TeamStats.name team"
    by simp_all
  from store_team_step [OF a(1,2), of P matchId ts rest db] obtain db' where
    eq: "store_teams P matchId ts (team # rest) db = store_teams P matchId ts rest db'"
    and row: "\<And>T. TreePlantingSummary db' T =
           (if T = TeamStats.name team
            then Some (upserted_total P db (TeamStats.name team)
                         (sql_of P (totalTreesPlanted team)), ts)
            else TreePlantingSummary db T)"
    by blast
  from Cons.prems have b: "\<forall>t \<in> set rest. \<forall>p \<in> set (players t). \<exists>s. PlayerStats.name p = JStr s"
    "\<forall>t \<in> set rest. TeamStats.name t \<notin> set Object_prototype_names"
    "T \<notin> TeamStats.name ` set rest"
    by simp_all
  from Cons.IH [OF b, of db'] row [of T] a(3) show ?case unfolding eq by simp
qed

lemma store_teams_row:
  assumes "\<forall>t \<in> set tms. \<forall>p \<in> set (players t). \<exists>s. PlayerStats.name p = JStr s"
    and "\<forall>t \<in> set tms. TeamStats.name t \<notin> set Object_prototype_names"
    and "distinct (map TeamStats.name tms)"
    and "team \<in> set tms"
  shows "fst (store_teams P matchId ts tms db) = None
     \<and> TreePlantingSummary (snd (store_teams P matchId ts tms db)) (TeamStats.name team) =
         Some (upserted_total P db (TeamStats.name team) (sql_of P (totalTreesPlanted team)), ts)"
  using assms
proof (induction tms arbitrary: db)
  case Nil
  then show ?case by simp
next
  case (Cons a rest)
  from Cons.prems have wa: "\<forall>p \<in> set (players a). \<exists>s. PlayerStats.name p = JStr s"
    "TeamStats.name a \<notin> set Object_prototype_names"
    by simp_all
  from store_team_step [OF wa, of P matchId ts rest db] obtain db' where
    eq: "store_teams P matchId ts (a # rest) db = store_teams P matchId ts rest db'"
    and row: "\<And>T. TreePlantingSummary db' T =
           (if T = TeamStats.name a
            then Some (upserted_total P db (TeamStats.name a)
                         (sql_of P (totalTreesPlanted a)), ts)
            else TreePlantingSummary db T)"
    by blast
  from Cons.prems have wr: "\<forall>t \<in> set rest. \<forall>p \<in> set (players t). \<exists>s. PlayerStats.name p = JStr s"
    "\<forall>t \<in> set rest. TeamStats.name t \<notin> set Object_prototype_names"
    "distinct (map TeamStats.name rest)"
    by simp_all
  show ?case
  proof (cases "a = team")
    case True
    with Cons.prems(3) have "TeamStats.name team \<notin> TeamStats.name ` set rest" by simp
    from store_teams_other [OF wr(1,2) this, of P matchId ts db'] row [of "TeamStats.name team"] True
    show ?thesis unfolding eq by simp
  next
    case False
    with Cons.prems(4) have in_rest: "team \<in> set rest" by simp
    then have "TeamStats.name team \<in> TeamStats.name ` set rest" by (rule imageI)
    with Cons.prems(3) have ne: "TeamStats.name team \<noteq> TeamStats.name a" by auto
    with row [of "TeamStats.name team"]
    have "upserted_total P db' (TeamStats.name team) v = upserted_total P db (TeamStats.name team) v"
      for v
      by (simp add: upserted_total_def)
    with Cons.IH [OF wr in_rest, of db'] show ?thesis unfolding eq by simp
  qed
qed

lemma storeMatchData_row:
  assumes wf: "\<forall>t \<in> set (teams md). \<forall>p \<in> set (players t). \<exists>s. PlayerStats.name p = JStr s"
    and own: "\<forall>t \<in> set (teams md). TeamStats.name t \<notin> set Object_prototype_names"
    and uniq: "distinct (map TeamStats.name (teams md))"
    and T: "team \<in> set (teams md)"
  shows "fst (storeMatchData P c md url db) = None
     \<and> TreePlantingSummary (snd (storeMatchData P c md url db)) (TeamStats.name team) =
         Some (upserted_total P db (TeamStats.name team) (sql_of P (totalTreesPlanted team)),
               formatDateTime P (getCurrentISTDate c))"
proof -
  let ?matchId = "extractMatchId url"
  let ?ts = "formatDateTime P (getCurrentISTDate c)"
  let ?db1 = "db\<lparr>Matches := (Matches db)(?matchId \<mapsto> (url, ?ts, ?ts))\<rparr>"
  have eq: "storeMatchData P c md url db = store_teams P ?matchId ?ts (teams md) ?db1"
    by (simp add: storeMatchData_def Let_def)
  have t1: "upserted_total P ?db1 T v = upserted_total P db T v" for T v
    by (simp add: upserted_total_def)
  from store_teams_row [OF wf own uniq T, of P ?matchId ?ts ?db1] show ?thesis
    unfolding eq t1 .
qed

lemma upserted_total_safe:
  assumes "summary_total db T = Some x" and "\<bar>v\<bar> \<le> 9007199254740991"
    and "\<bar>x\<bar> \<le> 9007199254740991" and "\<bar>x + v\<bar> \<le> 9007199254740991"
  shows "upserted_total P db T (sql_of P (Fin v)) = Some (x + v)"
  using assms
  by (auto simp: upserted_total_def summary_total_def sql_of_def sql_plus_def
      split: option.splits)

lemma storeMatchData_once:
  assumes wf: "\<forall>t \<in> set (teams md). \<forall>p \<in> set (players t). \<exists>s. PlayerStats.name p = JStr s"
    and own: "\<forall>t \<in> set (teams md). TeamStats.name t \<notin> set Object_prototype_names"
    and uniq: "distinct (map TeamStats.name (teams md))"
    and T: "team \<in> set (teams md)"
    and v: "totalTreesPlanted team = Fin v" "\<bar>v\<bar> \<le> 9007199254740991"
    and x: "summary_total db (TeamStats.name team) = Some x" "\<bar>x\<bar> \<le> 9007199254740991"
      "\<bar>x + v\<bar> \<le> 9007199254740991"
  shows "fst (storeMatchData P c md url db) = None"
    and "TreePlantingSummary (snd (storeMatchData P c md url db)) (TeamStats.name team) =
            Some (Some (x + v), formatDateTime P (getCurrentISTDate c))"
    and "summary_total (snd (storeMatchData P c md url db)) (TeamStats.name team) = Some (x + v)"
proof -
  note row = storeMatchData_row [OF wf own uniq T, of P c url db]
  from row show "fst (storeMatchData P c md url db) = None" by blast
  from row show r: "TreePlantingSummary (snd (storeMatchData P c md url db)) (TeamStats.name team) =
            Some (Some (x + v), formatDateTime P (getCurrentISTDate c))"
    unfolding v(1) upserted_total_safe [OF x(1) v(2) x(2,3)] by blast
  then show "summary_total (snd (storeMatchData P c md url db)) (TeamStats.name team)
      = Some (x + v)"
    by (simp add: summary_total_def)
qed

text \<open>
  C2, as stated, fails. The aggregator names a team by the \<^verbatim>\<open>TeamID\<close> of the feed. For the
  identifier \<^verbatim>\<open>constructor\<close> the lookup \<^verbatim>\<open>teamNames[teamId]\<close> answers with the function that
  every object inherits, \<^verbatim>\<open>bind\<close> refuses it, and \<^verbatim>\<open>storeMatchData\<close> throws before it writes
  the summary row of the team: the team carries 18 trees and its total is not increased.
\<close>

theorem inherited_team_name_stops_the_store:
  "processMatchData example_platform ''2025-04-01T14:00:00.000Z'' [inherited_innings1]
     = Inr inherited_result
   \<and> inherited_team \<in> set (teams inherited_result)
   \<and> TeamStats.name inherited_team = ''constructor''
   \<and> totalTreesPlanted inherited_team = Fin 18
   \<and> fst (storeMatchData example_platform 1743516000000 inherited_result
            ''https://www.iplt20.com/match/2025/1833'' (DB empty_world)) = Some D1_TYPE_ERROR
   \<and> TreePlantingSummary
        (snd (storeMatchData example_platform 1743516000000 inherited_result
               ''https://www.iplt20.com/match/2025/1833'' (DB empty_world))) ''constructor''
       = None"
proof -
  have 1: "processMatchData example_platform ''2025-04-01T14:00:00.000Z'' [inherited_innings1]
     = Inr inherited_result"
    by code_simp
  have n13: "teamName_of ''13'' = Some ''Chennai Super Kings''"
    by (simp add: teamName_of_def teamNames_def)
  have nc: "teamName_of ''constructor'' = None"
    by (simp add: teamName_of_def teamNames_def Object_prototype_names_def)
  have 2: "storeMatchData example_platform 1743516000000 inherited_result
            ''https://www.iplt20.com/match/2025/1833'' (DB empty_world)
      = (Some D1_TYPE_ERROR,
         snd (storeMatchData example_platform 1743516000000 inherited_result
            ''https://www.iplt20.com/match/2025/1833'' (DB empty_world)))"
    by (simp add: storeMatchData_def inherited_result_def inherited_team_def Let_def n13 nc)
  have 3: "TreePlantingSummary
        (snd (storeMatchData example_platform 1743516000000 inherited_result
               ''https://www.iplt20.com/match/2025/1833'' (DB empty_world))) ''constructor''
       = None"
    by (simp add: storeMatchData_def inherited_result_def inherited_team_def Let_def n13 nc
        update_summary_def empty_world_def)
  from 2 have 4: "fst (storeMatchData example_platform 1743516000000 inherited_result
            ''https://www.iplt20.com/match/2025/1833'' (DB empty_world)) = Some D1_TYPE_ERROR"
    by (metis fst_conv)
  from 1 3 4 show ?thesis by (simp add: inherited_result_def inherited_team_def)
qed

text \<open>
  C2, amended. Take a \<^verbatim>\<open>MatchData\<close> whose player names are strings, whose teams have names
  that are no property of \<^verbatim>\<open>Object.prototype\<close>, and no two teams of which share a name
  (\<open>processMatchData_team_names_distinct\<close>: the aggregator returns no other). Take a team
  of it whose trees are the safe integer \<open>v\<close>, and let \<open>x\<close> be the total of its row in
  \<^verbatim>\<open>TreePlantingSummary\<close>, zero when it has no row, with \<open>x\<close> and \<open>x + v\<close> safe integers. An
  invocation of \<^verbatim>\<open>storeMatchData\<close> completes and leaves the row with the total \<open>x + v\<close>; a
  team without a row gets one with \<open>v\<close>. A second invocation with the same \<^verbatim>\<open>MatchData\<close>
  adds \<open>v\<close> again, when \<open>x + 2 * v\<close> is a safe integer: the total is then \<open>2 * v\<close> above where
  it started.
\<close>

theorem summary_upsert_is_additive:
  assumes wf: "\<forall>t \<in> set (teams md). \<forall>p \<in> set (players t). \<exists>s. PlayerStats.name p = JStr s"
    and own: "\<forall>t \<in> set (teams md). TeamStats.name t \<notin> set Object_prototype_names"
    and uniq: "distinct (map TeamStats.name (teams md))"
    and T: "team \<in> set (teams md)"
    and v: "totalTreesPlanted team = Fin v" "\<bar>v\<bar> \<le> 9007199254740991"
    and x: "summary_total db (TeamStats.name team) = Some x" "\<bar>x\<bar> \<le> 9007199254740991"
      "\<bar>x + v\<bar> \<le> 9007199254740991"
  shows "fst (storeMatchData P c md url db) = None
     \<and> (\<exists>last_updated.
          TreePlantingSummary (snd (storeMatchData P c md url db)) (TeamStats.name team) =
            Some (Some (x + v), last_updated))
     \<and> (TreePlantingSummary db (TeamStats.name team) = None \<longrightarrow>
          (\<exists>last_updated.
             TreePlantingSummary (snd (storeMatchData P c md url db)) (TeamStats.name team) =
               Some (Some v, last_updated)))
     \<and> summary_total (snd (storeMatchData P c md url db)) (TeamStats.name team) = Some (x + v)
     \<and> (\<bar>x + 2 * v\<bar> \<le> 9007199254740991 \<longrightarrow>
          fst (storeMatchData P c' md url (snd (storeMatchData P c md url db))) = None
          \<and> summary_total
              (snd (storeMatchData P c' md url (snd (storeMatchData P c md url db))))
              (TeamStats.name team) = Some (x + 2 * v))"
proof -
  note once = storeMatchData_once [OF wf own uniq T v x, of P c url]
  have absent: "\<exists>last_updated.
             TreePlantingSummary (snd (storeMatchData P c md url db)) (TeamStats.name team) =
               Some (Some v, last_updated)"
    if "TreePlantingSummary db (TeamStats.name team) = None"
  proof -
    from that x(1) have "x = 0" by (simp add: summary_total_def)
    with once(2) show ?thesis by simp
  qed
  have twice: "fst (storeMatchData P c' md url (snd (storeMatchData P c md url db))) = None
          \<and> summary_total
              (snd (storeMatchData P c' md url (snd (storeMatchData P c md url db))))
              (TeamStats.name team) = Some (x + 2 * v)"
    if "\<bar>x + 2 * v\<bar> \<le> 9007199254740991"
  proof -
    from that have b: "\<bar>x + v + v\<bar> \<le> 9007199254740991" by simp
    from storeMatchData_once [OF wf own uniq T v once(3) x(3) b, of P c' url]
    show ?thesis by (simp add: algebra_simps)
  qed
  from once absent twice show ?thesis by blast
qed

theorem summary_upsert_is_additive_witness:
  "processMatchData example_platform ''2025-04-01T14:00:00.000Z'' [example_innings1]
     = Inr example_result
   \<and> distinct (map TeamStats.name (teams example_result))
   \<and> example_team17 \<in> set (teams example_result)
   \<and> totalTreesPlanted example_team17 = Fin 144
   \<and> summary_total (DB empty_world) ''17'' = Some 0
   \<and> summary_total
        (snd (storeMatchData example_platform 1743516000000 example_result
               ''https://www.iplt20.com/match/2025/1833'' (DB empty_world))) ''17'' = Some 144
   \<and> summary_total
        (snd (storeMatchData example_platform 1743516900000 example_result
               ''https://www.iplt20.com/match/2025/1833''
               (snd (storeMatchData example_platform 1743516000000 example_result
                      ''https://www.iplt20.com/match/2025/1833'' (DB empty_world))))) ''17''
       = Some 288"
proof -
  have h1: "\<forall>t \<in> set (teams example_result). \<forall>p \<in> set (players t).
      \<exists>s. PlayerStats.name p = JStr s"
    by (simp add: example_result_def example_team17_def)
  have h2: "\<forall>t \<in> set (teams example_result). TeamStats.name t \<notin> set Object_prototype_names"
    by (simp add: example_result_def example_team17_def Object_prototype_names_def)
  have h3: "distinct (map TeamStats.name (teams example_result))"
    by (simp add: example_result_def example_team17_def)
  have h4: "example_team17 \<in> set (teams example_result)"
    by (simp add: example_result_def)
  have n: "TeamStats.name example_team17 = ''17''" by (simp add: example_team17_def)
  have h5: "totalTreesPlanted example_team17 = Fin 144" by (simp add: example_team17_def)
  have h6: "\<bar>144 :: int\<bar> \<le> 9007199254740991" by simp
  have h7: "summary_total (DB empty_world) (TeamStats.name example_team17) = Some 0"
    by (simp add: summary_total_def empty_world_def)
  have h8: "\<bar>0 :: int\<bar> \<le> 9007199254740991" "\<bar>0 + 144 :: int\<bar> \<le> 9007199254740991" by simp_all
  from summary_upsert_is_additive [OF h1 h2 h3 h4 h5 h6 h7 h8, of example_platform 1743516000000
      "''https://www.iplt20.com/match/2025/1833''" 1743516900000]
  show ?thesis
    using example_run h3 h4 h5 h7 unfolding n by simp
qed

section \<open>Properties of the scheduled handler\<close>

lemma process_urls_Cons:
  "process_urls P (u # rest) w =
     (case process_urls P [u] w of
        (Some e, w') \<Rightarrow> (Some e, w')
      | (None, w') \<Rightarrow> process_urls P rest w')"
  by (simp add: Let_def split: prod.splits sum.splits option.splits)

lemma process_urls_append:
  "process_urls P (us @ vs) w =
     (case process_urls P us w of
        (Some e, w') \<Rightarrow> (Some e, w')
      | (None, w') \<Rightarrow> process_urls P vs w')"
proof (induction us arbitrary: w)
  case Nil
  show ?case by simp
next
  case (Cons u us)
  obtain r w' where one: "process_urls P [u] w = (r, w')" by (cases "process_urls P [u] w")
  show ?case
  proof (cases r)
    case None
    have "process_urls P ((u # us) @ vs) w = process_urls P (us @ vs) w'"
      by (simp only: append_Cons process_urls_Cons [of P u "us @ vs"] one None
          prod.case option.case)
    moreover have "process_urls P (u # us) w = process_urls P us w'"
      by (simp only: process_urls_Cons [of P u us] one None prod.case option.case)
    ultimately show ?thesis by (simp only: Cons.IH)
  next
    case (Some e)
    have "process_urls P ((u # us) @ vs) w = (Some e, w')"
      by (simp only: append_Cons process_urls_Cons [of P u "us @ vs"] one Some
          prod.case option.case)
    moreover have "process_urls P (u # us) w = (Some e, w')"
      by (simp only: process_urls_Cons [of P u us] one Some prod.case option.case)
    ultimately show ?thesis by (simp only: prod.case option.case)
  qed
qed

lemma fetch_failure_step:
  assumes "\<not> already_processed P (DB w) (extractMatchId u)
             (formatDateTime P (getCurrentISTDate (Date_now P (reads w))))"
    and "fetchMatchJson P (extractMatchId u) = Inl e"
  shows "process_urls P [u] w =
           (Some e, w\<lparr>reads := Suc (reads w),
                       console := console w @ [''Processing match: '' @ u]\<rparr>)"
  using assms by (simp add: Let_def processMatchUrl_def)

lemma fst_None_pair: "fst p = None \<Longrightarrow> \<exists>w. p = (None, w)"
  by (cases p) simp

lemma id1832: "extractMatchId ''https://www.iplt20.com/match/2025/1832'' = ''1832''"
  by code_simp

lemma id1834: "extractMatchId ''https://www.iplt20.com/match/2025/1834'' = ''1834''"
  by code_simp

lemma f1832: "fetchMatchJson example_platform ''1832''
    = Inl (Error ''Failed to fetch any valid data for match 1832'')"
  by code_simp

lemma f1833: "fetchMatchJson example_platform ''1833'' = Inr [example_innings1]"
  by code_simp

lemma f1834: "fetchMatchJson example_platform ''1834'' = Inr [example_innings2]"
  by code_simp

lemma p1834: "processMatchData P now [example_innings2] = Inr \<lparr>timestamp = now, teams = []\<rparr>"
  by (simp add: example_innings2_def processMatchData_def innings_step_def)

lemma one1834:
  "fst (process_urls example_platform [''https://www.iplt20.com/match/2025/1834'']
     (empty_world\<lparr>reads := reads empty_world + 3\<rparr>)) = None"
  "Matches (DB (snd (process_urls example_platform [''https://www.iplt20.com/match/2025/1834'']
     (empty_world\<lparr>reads := reads empty_world + 3\<rparr>)))) ''1832'' = None"
  "console (snd (process_urls example_platform [''https://www.iplt20.com/match/2025/1834'']
     (empty_world\<lparr>reads := reads empty_world + 3\<rparr>)))
    = [''Processing match: https://www.iplt20.com/match/2025/1834'',
       ''Data for match 1834 stored in database'']"
  by (simp_all add: Let_def id1834 f1834 p1834 processMatchUrl_def already_processed_def
      empty_world_def storeMatchData_def)

text \<open>
  C1, as stated, fails. On the sample platform the feeds of match 1832, the first URL of
  the list, cannot be reached, so its pipeline throws; the feed of match 1833 is there.
  The handler logs the start of match 1832 and nothing more: the throw leaves the
  \<^verbatim>\<open>for\<close> loop, which lies inside the one \<^verbatim>\<open>try\<close> of the handler, and no later URL is
  processed.
\<close>

theorem later_matches_are_not_processed:
  "console (scheduled example_platform empty_world)
     = [''Processing match: https://www.iplt20.com/match/2025/1832'']
   \<and> Matches (DB (scheduled example_platform empty_world)) ''1833'' = None
   \<and> fetchMatchJson example_platform ''1833'' = Inr [example_innings1]"
proof -
  let ?w0 = "empty_world\<lparr>reads := reads empty_world + 3\<rparr>"
  let ?u = "''https://www.iplt20.com/match/2025/1832''"
  have np: "\<not> already_processed example_platform (DB ?w0) (extractMatchId ?u)
             (formatDateTime example_platform
               (getCurrentISTDate (Date_now example_platform (reads ?w0))))"
    by (simp add: already_processed_def empty_world_def)
  have fl: "fetchMatchJson example_platform (extractMatchId ?u)
      = Inl (Error ''Failed to fetch any valid data for match 1832'')"
    by (simp only: id1832 f1832)
  note one = fetch_failure_step [OF np fl]
  have "process_urls example_platform urls ?w0 =
      (Some (Error ''Failed to fetch any valid data for match 1832''),
       ?w0\<lparr>reads := Suc (reads ?w0), console := console ?w0 @ [''Processing match: '' @ ?u]\<rparr>)"
    unfolding urls_def
    by (simp only: process_urls_Cons [of example_platform ?u
          "[''https://www.iplt20.com/match/2025/1833'', ''https://www.iplt20.com/match/2025/1834'',
            ''https://www.iplt20.com/match/2025/1835'']"]
        one prod.case option.case)
  then have "scheduled example_platform empty_world =
      ?w0\<lparr>reads := Suc (reads ?w0), console := console ?w0 @ [''Processing match: '' @ ?u]\<rparr>"
    by (simp only: scheduled_def scheduled_on_def snd_conv)
  then show ?thesis by (simp add: empty_world_def f1833)
qed

text \<open>
  C1, amended. The handler swallows a failure of the pipeline of a match, in that it
  returns; but the failure ends the loop. When the URLs before \<open>u\<close> are processed or
  skipped without a throw and the pipeline of \<open>u\<close> throws, in the fetch, the aggregation,
  the printing of the summary or the writes, the handler ends in the state of that throw,
  whatever URLs follow \<open>u\<close>: none of them is processed.
\<close>

theorem failure_ends_the_loop:
  assumes before: "process_urls P us (w\<lparr>reads := reads w + 3\<rparr>) = (None, w1)"
    and failing: "process_urls P [u] w1 = (Some e, w2)"
  shows "scheduled_on P (us @ u # vs) w = w2"
proof -
  have "process_urls P (u # vs) w1 = (Some e, w2)"
    by (simp only: process_urls_Cons [of P u vs] failing prod.case option.case)
  then have "process_urls P (us @ u # vs) (w\<lparr>reads := reads w + 3\<rparr>) = (Some e, w2)"
    by (simp only: process_urls_append [of P us] before prod.case option.case)
  then show ?thesis by (simp only: scheduled_on_def snd_conv)
qed


theorem failure_ends_the_loop_witness:
  "fst (process_urls example_platform [''https://www.iplt20.com/match/2025/1834'']
          (empty_world\<lparr>reads := reads empty_world + 3\<rparr>)) = None
   \<and> fst (process_urls example_platform [''https://www.iplt20.com/match/2025/1832'']
          (snd (process_urls example_platform [''https://www.iplt20.com/match/2025/1834'']
            (empty_world\<lparr>reads := reads empty_world + 3\<rparr>))))
       = Some (Error ''Failed to fetch any valid data for match 1832'')
   \<and> console (scheduled_on example_platform
        ([''https://www.iplt20.com/match/2025/1834'']
          @ ''https://www.iplt20.com/match/2025/1832''
          # [''https://www.iplt20.com/match/2025/1833'', ''https://www.iplt20.com/match/2025/1835''])
        empty_world)
     = [''Processing match: https://www.iplt20.com/match/2025/1834'',
        ''Data for match 1834 stored in database'',
        ''Processing match: https://www.iplt20.com/match/2025/1832'']"
proof -
  let ?us = "[''https://www.iplt20.com/match/2025/1834'']"
  let ?u = "''https://www.iplt20.com/match/2025/1832''"
  let ?w0 = "empty_world\<lparr>reads := reads empty_world + 3\<rparr>"
  define w1 where "w1 = snd (process_urls example_platform ?us ?w0)"
  have a: "fst (process_urls example_platform ?us ?w0) = None" by (rule one1834(1))
  then have h1: "process_urls example_platform ?us ?w0 = (None, w1)"
    unfolding w1_def by (simp only: prod_eq_iff fst_conv snd_conv simp_thms)
  have m: "Matches (DB w1) ''1832'' = None" unfolding w1_def by (rule one1834(2))
  have c: "console w1 = [''Processing match: https://www.iplt20.com/match/2025/1834'',
       ''Data for match 1834 stored in database'']"
    unfolding w1_def by (rule one1834(3))
  have np: "\<not> already_processed example_platform (DB w1) (extractMatchId ?u)
             (formatDateTime example_platform
               (getCurrentISTDate (Date_now example_platform (reads w1))))"
    by (simp add: already_processed_def id1832 m)
  have fl: "fetchMatchJson example_platform (extractMatchId ?u)
      = Inl (Error ''Failed to fetch any valid data for match 1832'')"
    by (simp only: id1832 f1832)
  note h2 = fetch_failure_step [OF np fl]
  from failure_ends_the_loop [OF h1 h2] have "scheduled_on example_platform
        (?us @ ?u # [''https://www.iplt20.com/match/2025/1833'',
                     ''https://www.iplt20.com/match/2025/1835'']) empty_world
      = w1\<lparr>reads := Suc (reads w1), console := console w1 @ [''Processing match: '' @ ?u]\<rparr>" .
  then have "console (scheduled_on example_platform
        (?us @ ?u # [''https://www.iplt20.com/match/2025/1833'',
                     ''https://www.iplt20.com/match/2025/1835'']) empty_world)
      = [''Processing match: https://www.iplt20.com/match/2025/1834'',
        ''Data for match 1834 stored in database'',
        ''Processing match: https://www.iplt20.com/match/2025/1832'']"
    by (simp add: c)
  moreover have "fst (process_urls example_platform [?u] w1)
      = Some (Error ''Failed to fetch any valid data for match 1832'')"
    by (simp only: h2 fst_conv)
  ultimately show ?thesis using a unfolding w1_def by (simp only: simp_thms)
qed
end
